theory Spec2Isabelle
  imports Main
begin

section \<open>Python values of the run state\<close>

text \<open>
  The run state of \<^verbatim>\<open>app_og.py\<close> is a Python dict built from JSON: its values are
  \<^verbatim>\<open>None\<close>, booleans, integers, strings, lists, tuples (the default
  \<^verbatim>\<open>(0, 100)\<close> of \<^verbatim>\<open>anomaly_bounds\<close>) and nested dicts with string keys.
  A dict is an association list in insertion order, as Python keeps it; a \<^typ>\<open>char\<close>
  stands for one code point of a Python string. Floating-point numbers are not modelled:
  numbers are Python's unbounded integers.
\<close>

datatype pyval =
    PNone
  | PBool bool
  | PInt int
  | PStr string
  | PList "pyval list"
  | PTuple "pyval list"
  | PDict "(string \<times> pyval) list"

type_synonym pydict = "(string \<times> pyval) list"

text \<open>The exceptions the modelled code can raise; a \<^verbatim>\<open>KeyError\<close> carries its key.\<close>

datatype exc = TypeError | AttributeError | KeyError string | ValueError | RecursionError

text \<open>Sequencing of statements that may raise: the first exception ends the computation.\<close>

definition bnd :: "exc + 'a \<Rightarrow> ('a \<Rightarrow> exc + 'b) \<Rightarrow> exc + 'b" where
  "bnd m f = (case m of Inl e \<Rightarrow> Inl e | Inr x \<Rightarrow> f x)"

subsection \<open>Dict operations\<close>

text \<open>\<^verbatim>\<open>d.get(k)\<close>, \<^verbatim>\<open>d.get(k, default)\<close>, \<^verbatim>\<open>d[k]\<close> and \<^verbatim>\<open>d[k] = v\<close>. Assignment keeps
  the position of a key that is present and appends a new key at the end.\<close>

definition dict_get :: "pydict \<Rightarrow> string \<Rightarrow> pyval" where
  "dict_get d k = (case map_of d k of None \<Rightarrow> PNone | Some v \<Rightarrow> v)"

definition dict_get_default :: "pydict \<Rightarrow> string \<Rightarrow> pyval \<Rightarrow> pyval" where
  "dict_get_default d k dflt = (case map_of d k of None \<Rightarrow> dflt | Some v \<Rightarrow> v)"

definition dict_item :: "pydict \<Rightarrow> string \<Rightarrow> exc + pyval" where
  "dict_item d k = (case map_of d k of None \<Rightarrow> Inl (KeyError k) | Some v \<Rightarrow> Inr v)"

fun dict_set :: "string \<Rightarrow> pyval \<Rightarrow> pydict \<Rightarrow> pydict" where
  "dict_set k v [] = [(k, v)]"
| "dict_set k v ((k', v') # d) = (if k' = k then (k, v) # d else (k', v') # dict_set k v d)"

subsection \<open>Equality and ordering\<close>

text \<open>\<^verbatim>\<open>bool\<close> is a subclass of \<^verbatim>\<open>int\<close>: \<^verbatim>\<open>True\<close> counts as 1 and \<^verbatim>\<open>False\<close> as 0 in
  comparisons.\<close>

fun num_of :: "pyval \<Rightarrow> int option" where
  "num_of (PInt i) = Some i"
| "num_of (PBool b) = Some (if b then 1 else 0)"
| "num_of PNone = None"
| "num_of (PStr s) = None"
| "num_of (PList xs) = None"
| "num_of (PTuple xs) = None"
| "num_of (PDict d) = None"

text \<open>
  \<^verbatim>\<open>a == b\<close>. Lists and tuples are equal when they have the same length and equal
  elements; a list never equals a tuple. Dicts are equal when they have the same number of
  keys and every key of the left one is in the right one with an equal value, whatever the
  insertion order. It never raises on these values.
\<close>

fun py_eq :: "pyval \<Rightarrow> pyval \<Rightarrow> bool"
  and py_eq_list :: "pyval list \<Rightarrow> pyval list \<Rightarrow> bool"
  and py_eq_items :: "pydict \<Rightarrow> pydict \<Rightarrow> bool" where
  "py_eq PNone b = (case b of PNone \<Rightarrow> True | _ \<Rightarrow> False)"
| "py_eq (PBool x) b = (case num_of b of Some j \<Rightarrow> (if x then 1 else 0) = j | None \<Rightarrow> False)"
| "py_eq (PInt i) b = (case num_of b of Some j \<Rightarrow> i = j | None \<Rightarrow> False)"
| "py_eq (PStr s) b = (case b of PStr t \<Rightarrow> s = t | _ \<Rightarrow> False)"
| "py_eq (PList xs) b = (case b of PList ys \<Rightarrow> py_eq_list xs ys | _ \<Rightarrow> False)"
| "py_eq (PTuple xs) b = (case b of PTuple ys \<Rightarrow> py_eq_list xs ys | _ \<Rightarrow> False)"
| "py_eq (PDict d) b = (case b of PDict e \<Rightarrow> length d = length e \<and> py_eq_items d e | _ \<Rightarrow> False)"
| "py_eq_list [] ys = (case ys of [] \<Rightarrow> True | _ \<Rightarrow> False)"
| "py_eq_list (x # xs) ys = (case ys of [] \<Rightarrow> False | y # ys' \<Rightarrow> py_eq x y \<and> py_eq_list xs ys')"
| "py_eq_items [] e = True"
| "py_eq_items ((k, v) # d) e =
     (case map_of e k of None \<Rightarrow> False | Some w \<Rightarrow> py_eq v w \<and> py_eq_items d e)"

text \<open>The four ordering operators \<^verbatim>\<open><\<close>, \<^verbatim>\<open><=\<close>, \<^verbatim>\<open>>\<close>, \<^verbatim>\<open>>=\<close>.\<close>

datatype cmp = Lt | Le | Gt | Ge

fun ord_cmp :: "cmp \<Rightarrow> int \<Rightarrow> int \<Rightarrow> bool" where
  "ord_cmp Lt i j = (i < j)"
| "ord_cmp Le i j = (i \<le> j)"
| "ord_cmp Gt i j = (i > j)"
| "ord_cmp Ge i j = (i \<ge> j)"

text \<open>Strings compare by their first differing code point, else by length.\<close>

fun str_cmp :: "cmp \<Rightarrow> string \<Rightarrow> string \<Rightarrow> bool" where
  "str_cmp c (x # xs) (y # ys) =
     (if x = y then str_cmp c xs ys else ord_cmp c (of_char x) (of_char y))"
| "str_cmp c xs ys = ord_cmp c (int (length xs)) (int (length ys))"

text \<open>
  \<^verbatim>\<open>a < b\<close> and its siblings: numbers with numbers, strings with strings, lists with lists
  and tuples with tuples (by the first pair of elements that are not \<^verbatim>\<open>==\<close>, else by
  length); every other pairing raises \<^verbatim>\<open>TypeError\<close>.
\<close>

fun py_cmp :: "cmp \<Rightarrow> pyval \<Rightarrow> pyval \<Rightarrow> exc + bool"
  and py_cmp_list :: "cmp \<Rightarrow> pyval list \<Rightarrow> pyval list \<Rightarrow> exc + bool" where
  "py_cmp c PNone b = Inl TypeError"
| "py_cmp c (PBool x) b =
     (case num_of b of Some j \<Rightarrow> Inr (ord_cmp c (if x then 1 else 0) j) | None \<Rightarrow> Inl TypeError)"
| "py_cmp c (PInt i) b =
     (case num_of b of Some j \<Rightarrow> Inr (ord_cmp c i j) | None \<Rightarrow> Inl TypeError)"
| "py_cmp c (PStr s) b = (case b of PStr t \<Rightarrow> Inr (str_cmp c s t) | _ \<Rightarrow> Inl TypeError)"
| "py_cmp c (PList xs) b = (case b of PList ys \<Rightarrow> py_cmp_list c xs ys | _ \<Rightarrow> Inl TypeError)"
| "py_cmp c (PTuple xs) b = (case b of PTuple ys \<Rightarrow> py_cmp_list c xs ys | _ \<Rightarrow> Inl TypeError)"
| "py_cmp c (PDict d) b = Inl TypeError"
| "py_cmp_list c [] ys = Inr (ord_cmp c 0 (int (length ys)))"
| "py_cmp_list c (x # xs) ys =
     (case ys of [] \<Rightarrow> Inr (ord_cmp c (int (length (x # xs))) 0)
      | y # ys' \<Rightarrow> if py_eq x y then py_cmp_list c xs ys' else py_cmp c x y)"

text \<open>\<^verbatim>\<open>min(a, b)\<close> keeps \<^verbatim>\<open>a\<close> unless \<^verbatim>\<open>b < a\<close>; \<^verbatim>\<open>max(a, b)\<close> keeps \<^verbatim>\<open>a\<close> unless
  \<^verbatim>\<open>b > a\<close>. Both return one of their arguments.\<close>

definition py_min :: "pyval \<Rightarrow> pyval \<Rightarrow> exc + pyval" where
  "py_min a b = bnd (py_cmp Lt b a) (\<lambda>lt. Inr (if lt then b else a))"

definition py_max :: "pyval \<Rightarrow> pyval \<Rightarrow> exc + pyval" where
  "py_max a b = bnd (py_cmp Gt b a) (\<lambda>gt. Inr (if gt then b else a))"

subsection \<open>Iteration, length and unpacking\<close>

text \<open>\<^verbatim>\<open>for v in x\<close>: a list or tuple yields its elements, a string its characters, a
  dict its keys; \<^verbatim>\<open>None\<close> and numbers are not iterable.\<close>

fun py_iter :: "pyval \<Rightarrow> exc + pyval list" where
  "py_iter (PList xs) = Inr xs"
| "py_iter (PTuple xs) = Inr xs"
| "py_iter (PStr s) = Inr (map (\<lambda>c. PStr [c]) s)"
| "py_iter (PDict d) = Inr (map (\<lambda>kv. PStr (fst kv)) d)"
| "py_iter PNone = Inl TypeError"
| "py_iter (PBool b) = Inl TypeError"
| "py_iter (PInt i) = Inl TypeError"

fun py_len :: "pyval \<Rightarrow> exc + nat" where
  "py_len (PList xs) = Inr (length xs)"
| "py_len (PTuple xs) = Inr (length xs)"
| "py_len (PStr s) = Inr (length s)"
| "py_len (PDict d) = Inr (length d)"
| "py_len PNone = Inl TypeError"
| "py_len (PBool b) = Inl TypeError"
| "py_len (PInt i) = Inl TypeError"

text \<open>\<^verbatim>\<open>low, high = x\<close>: \<^verbatim>\<open>x\<close> must be iterable (\<^verbatim>\<open>TypeError\<close>) and yield exactly two
  values (\<^verbatim>\<open>ValueError\<close>).\<close>

definition unpack2 :: "pyval \<Rightarrow> exc + (pyval \<times> pyval)" where
  "unpack2 x = bnd (py_iter x) (\<lambda>vs. case vs of [a, b] \<Rightarrow> Inr (a, b) | _ \<Rightarrow> Inl ValueError)"

section \<open>The tools\<close>

type_synonym state = pydict

text \<open>
  A tool takes the state dict and returns it, or raises. Each of the four tools assigns
  to the state only in its last statement, \<^verbatim>\<open>state[key] = ...\<close>, after everything
  that can raise, so a tool that raises leaves the state as it was. The executor keeps its
  state when a tool returns \<^verbatim>\<open>None\<close> (\<^verbatim>\<open>if result is not None: state = result\<close>); such
  a tool is one that returns its argument.
\<close>

type_synonym tool = "state \<Rightarrow> exc + state"

subsection \<open>\<^verbatim>\<open>profile_data_tool\<close>\<close>

definition profile_data_tool :: tool where
  "profile_data_tool s =
     (let data = dict_get_default s ''data'' (PList []) in
      bnd (py_len data) (\<lambda>n.
      bnd (py_iter data) (\<lambda>vs.
        let nulls = length (filter (\<lambda>v. v = PNone) vs) in
        Inr (dict_set ''profile''
               (PDict [(''rows'', PInt (int n)), (''nulls'', PInt (int nulls))]) s))))"

subsection \<open>\<^verbatim>\<open>detect_anomalies_tool\<close>\<close>

definition default_bounds :: pyval where
  "default_bounds = PTuple [PInt 0, PInt 100]"

text \<open>The filter of the list comprehension:
  \<^verbatim>\<open>v is not None and (v < low or v > high)\<close>, with \<^verbatim>\<open>and\<close> and \<^verbatim>\<open>or\<close>
  short-circuiting.\<close>

definition is_anomaly :: "pyval \<Rightarrow> pyval \<Rightarrow> pyval \<Rightarrow> exc + bool" where
  "is_anomaly low high v =
     (if v = PNone then Inr False
      else bnd (py_cmp Lt v low) (\<lambda>below. if below then Inr True else py_cmp Gt v high))"

fun anomalies_of :: "pyval \<Rightarrow> pyval \<Rightarrow> pyval list \<Rightarrow> exc + pyval list" where
  "anomalies_of low high [] = Inr []"
| "anomalies_of low high (v # vs) =
     bnd (is_anomaly low high v) (\<lambda>a.
     bnd (anomalies_of low high vs) (\<lambda>rest. Inr (if a then v # rest else rest)))"

definition detect_anomalies_tool :: tool where
  "detect_anomalies_tool s =
     (let data = dict_get_default s ''data'' (PList []) in
      bnd (unpack2 (dict_get_default s ''anomaly_bounds'' default_bounds)) (\<lambda>(low, high).
      bnd (py_iter data) (\<lambda>vs.
      bnd (anomalies_of low high vs) (\<lambda>anomalies.
        Inr (dict_set ''anomalies''
               (PDict [(''count'', PInt (int (length anomalies))),
                       (''values'', PList (take 10 anomalies))]) s)))))"

subsection \<open>\<^verbatim>\<open>generate_rules_tool\<close>\<close>

text \<open>\<^verbatim>\<open>state.get(outer, {}).get(inner, 0) > 0\<close>: the value under \<^verbatim>\<open>outer\<close> must have a
  \<^verbatim>\<open>get\<close> method, that is, be a dict.\<close>

definition positive_metric :: "state \<Rightarrow> string \<Rightarrow> string \<Rightarrow> exc + bool" where
  "positive_metric s outer inner =
     (case dict_get_default s outer (PDict []) of
        PDict d \<Rightarrow> py_cmp Gt (dict_get_default d inner (PInt 0)) (PInt 0)
      | _ \<Rightarrow> Inl AttributeError)"

definition fill_null_rule :: pyval where
  "fill_null_rule =
     PDict [(''name'', PStr ''fill_null''), (''action'', PStr ''fill''), (''value'', PInt 0)]"

definition clip_rule :: "pyval \<Rightarrow> pyval \<Rightarrow> pyval" where
  "clip_rule low high =
     PDict [(''name'', PStr ''clip''), (''action'', PStr ''clip''), (''low'', low), (''high'', high)]"

definition generate_rules_tool :: tool where
  "generate_rules_tool s =
     bnd (positive_metric s ''profile'' ''nulls'') (\<lambda>has_nulls.
       let rules = (if has_nulls then [fill_null_rule] else []) in
       bnd (positive_metric s ''anomalies'' ''count'') (\<lambda>has_anomalies.
         if has_anomalies then
           bnd (unpack2 (dict_get_default s ''anomaly_bounds'' default_bounds)) (\<lambda>(low, high).
             Inr (dict_set ''rules'' (PList (rules @ [clip_rule low high])) s))
         else Inr (dict_set ''rules'' (PList rules) s)))"

subsection \<open>\<^verbatim>\<open>apply_rules_tool\<close>\<close>

text \<open>\<^verbatim>\<open>next((r for r in rules if r.get("name") == name), None)\<close>: the first rule with
  that name. The search stops at the first match; a rule met before it that is not a dict
  has no \<^verbatim>\<open>get\<close> method.\<close>

fun first_rule :: "string \<Rightarrow> pyval list \<Rightarrow> exc + pydict option" where
  "first_rule name [] = Inr None"
| "first_rule name (r # rs) =
     (case r of
        PDict d \<Rightarrow> if py_eq (dict_get d ''name'') (PStr name) then Inr (Some d)
                   else first_rule name rs
      | _ \<Rightarrow> Inl AttributeError)"

definition find_rule :: "pyval \<Rightarrow> string \<Rightarrow> exc + pydict option" where
  "find_rule rules name = bnd (py_iter rules) (first_rule name)"

text \<open>The body of the loop over \<^verbatim>\<open>data\<close>: the value appended to \<^verbatim>\<open>new_data\<close> for the
  entry \<^verbatim>\<open>v\<close>. \<^verbatim>\<open>if fill_rule\<close> and \<^verbatim>\<open>if clip_rule:\<close> hold for a rule that was found
  and is not the empty dict.\<close>

definition apply_rules_entry :: "pyval \<Rightarrow> pyval \<Rightarrow> exc + pyval" where
  "apply_rules_entry rules v =
     (if v = PNone then
        bnd (find_rule rules ''fill_null'') (\<lambda>fill_rule.
          case fill_rule of
            None \<Rightarrow> Inr v
          | Some r \<Rightarrow> if r \<noteq> [] then dict_item r ''value'' else Inr v)
      else
        bnd (find_rule rules ''clip'') (\<lambda>found.
          case found of
            None \<Rightarrow> Inr v
          | Some r \<Rightarrow>
              if r \<noteq> [] then
                bnd (dict_item r ''low'') (\<lambda>low.
                bnd (dict_item r ''high'') (\<lambda>high.
                bnd (py_min high v) (\<lambda>m. py_max low m)))
              else Inr v))"

fun apply_rules_loop :: "pyval \<Rightarrow> pyval list \<Rightarrow> exc + pyval list" where
  "apply_rules_loop rules [] = Inr []"
| "apply_rules_loop rules (v # vs) =
     bnd (apply_rules_entry rules v) (\<lambda>w.
     bnd (apply_rules_loop rules vs) (\<lambda>ws. Inr (w # ws)))"

definition apply_rules_tool :: tool where
  "apply_rules_tool s =
     (let data = dict_get_default s ''data'' (PList []);
          rules = dict_get_default s ''rules'' (PList []) in
      bnd (py_iter data) (\<lambda>vs.
      bnd (apply_rules_loop rules vs) (\<lambda>new_data.
        Inr (dict_set ''data'' (PList new_data) s))))"

subsection \<open>The registry\<close>

type_synonym registry = "string \<rightharpoonup> tool"

definition TOOLS :: registry where
  "TOOLS = [''profile'' \<mapsto> profile_data_tool,
            ''detect_anomalies'' \<mapsto> detect_anomalies_tool,
            ''generate_rules'' \<mapsto> generate_rules_tool,
            ''apply_rules'' \<mapsto> apply_rules_tool]"

section \<open>Graphs and run records\<close>

text \<open>\<^verbatim>\<open>GraphDef\<close>: \<^verbatim>\<open>nodes\<close> maps a node name to a tool name, \<^verbatim>\<open>edges\<close> a node to
  its successor; \<^verbatim>\<open>loop_condition\<close> is an optional dict of any shape.\<close>

record graph =
  nodes :: "string \<rightharpoonup> string"
  edges :: "string \<rightharpoonup> string"
  start_node :: string
  loop_condition :: "pydict option"

datatype status = Running | Finished | Failed

text \<open>
  A log entry stands for the formatted string the executor appends; it carries the values
  the source interpolates into that string:
  \<^verbatim>\<open>Running node: {current} -> {tool_name}\<close>, \<^verbatim>\<open>Missing tool: {tool_name}\<close>,
  \<^verbatim>\<open>Exception in {tool_name}: {repr(exc)}\<close>,
  \<^verbatim>\<open>Loop stop satisfied: {loop_condition} (metric={metric_val})\<close>,
  \<^verbatim>\<open>State unchanged ...\<close> and \<^verbatim>\<open>Execution finished\<close>.
\<close>

datatype log_entry =
    RunningNode string "string option"
  | MissingTool "string option"
  | ExceptionIn string exc
  | LoopStop "pydict option" pyval
  | StateUnchanged
  | ExecutionFinished

text \<open>The entry \<^verbatim>\<open>RUNS[run_id]\<close> of the run store.\<close>

record run_record =
  r_state :: state
  r_log :: "log_entry list"
  r_status :: status

section \<open>Helpers\<close>

text \<open>\<^verbatim>\<open>metric_path.split(".")\<close>: never empty; the empty string gives one empty part.\<close>

fun split_dot :: "string \<Rightarrow> string list" where
  "split_dot [] = [[]]"
| "split_dot (c # cs) =
     (if c = CHR ''.'' then [] # split_dot cs
      else (case split_dot cs of [] \<Rightarrow> [[c]] | p # ps \<Rightarrow> (c # p) # ps))"

text \<open>The loop of \<^verbatim>\<open>_resolve_metric\<close>: \<^verbatim>\<open>cur.get(p)\<close> needs \<^verbatim>\<open>cur\<close> to be a dict.\<close>

fun resolve_parts :: "pyval \<Rightarrow> string list \<Rightarrow> exc + pyval" where
  "resolve_parts cur [] = Inr cur"
| "resolve_parts cur (p # ps) =
     (if cur = PNone then Inr PNone
      else (case cur of
              PDict d \<Rightarrow> resolve_parts (dict_get d p) ps
            | _ \<Rightarrow> Inl AttributeError))"

definition resolve_metric :: "state \<Rightarrow> string \<Rightarrow> exc + pyval" where
  "resolve_metric s metric_path = resolve_parts (PDict s) (split_dot metric_path)"

text \<open>
  \<^verbatim>\<open>_condition_satisfied\<close>, the closure of \<^verbatim>\<open>execute_graph\<close>. \<^verbatim>\<open>not loop_cond\<close> holds for
  \<^verbatim>\<open>None\<close> and for the empty dict. The subscripts \<^verbatim>\<open>loop_cond["metric"]\<close>,
  \<^verbatim>\<open>["op"]\<close> and \<^verbatim>\<open>["value"]\<close> raise \<^verbatim>\<open>KeyError\<close> on a missing key, and a metric that
  is not a string has no \<^verbatim>\<open>split\<close>.
\<close>

definition condition_satisfied :: "graph \<Rightarrow> state \<Rightarrow> exc + (bool \<times> pyval)" where
  "condition_satisfied g snap =
     (case loop_condition g of
        None \<Rightarrow> Inr (False, PNone)
      | Some loop_cond \<Rightarrow>
          if loop_cond = [] then Inr (False, PNone)
          else
            bnd (dict_item loop_cond ''metric'') (\<lambda>metric.
            bnd (case metric of PStr metric_path \<Rightarrow> resolve_metric snap metric_path
                 | _ \<Rightarrow> Inl AttributeError) (\<lambda>metric_val.
            bnd (dict_item loop_cond ''op'') (\<lambda>op.
            bnd (dict_item loop_cond ''value'') (\<lambda>target.
              if metric_val = PNone then Inr (False, metric_val)
              else if py_eq op (PStr ''<='') then
                bnd (py_cmp Le metric_val target) (\<lambda>b. Inr (b, metric_val))
              else if py_eq op (PStr ''<'') then
                bnd (py_cmp Lt metric_val target) (\<lambda>b. Inr (b, metric_val))
              else if py_eq op (PStr ''>='') then
                bnd (py_cmp Ge metric_val target) (\<lambda>b. Inr (b, metric_val))
              else if py_eq op (PStr ''>'') then
                bnd (py_cmp Gt metric_val target) (\<lambda>b. Inr (b, metric_val))
              else if py_eq op (PStr ''=='') then Inr (py_eq metric_val target, metric_val)
              else if py_eq op (PStr ''!='') then Inr (\<not> py_eq metric_val target, metric_val)
              else Inr (False, metric_val))))))"

section \<open>The execution engine\<close>

text \<open>
  \<^verbatim>\<open>execute_graph\<close> reads the globals \<^verbatim>\<open>TOOLS\<close>, \<^verbatim>\<open>GRAPHS[graph_id]\<close> and
  \<^verbatim>\<open>RUNS[run_id]\<close>; the model takes the registry, the graph and the run record as
  arguments, with the interpreter's ability to deep-copy a state, and returns the run
  record as the call leaves it. The local variables of the
  loop are gathered in \<open>vars\<close>, under their names in the source; \<open>runs\<close> is
  \<^verbatim>\<open>RUNS[run_id]\<close>.
\<close>

record vars =
  current :: string
  visited :: nat
  state :: state
  prev_state :: state
  log :: "log_entry list"
  runs :: run_record

text \<open>
  How a call of \<^verbatim>\<open>execute_graph\<close> ends: the run record it leaves in the store, the
  final value of \<^verbatim>\<open>visited\<close> (the number of node executions started), and the exception
  that left the function uncaught, if any.
\<close>

record outcome =
  final_run :: run_record
  executed :: nat
  uncaught :: "exc option"

text \<open>One pass through the body of the \<^verbatim>\<open>while\<close> loop ends in a \<^verbatim>\<open>return\<close>, in the
  \<^verbatim>\<open>break\<close>, or at the end of the body.\<close>

datatype step = Return outcome | Break vars | Continue vars

definition MAX_STEPS :: nat where
  "MAX_STEPS = 200"

text \<open>
  \<^verbatim>\<open>copy.deepcopy\<close> recurses along the nesting of its argument and raises
  \<^verbatim>\<open>RecursionError\<close> on a state nested deeper than the interpreter's recursion limit
  lets it go (a JSON body nested some hundreds of levels deep is enough). Which states it
  can copy depends on the interpreter and is a parameter of the model, the predicate
  \<open>copyable\<close>; a copy that is made has the value of the original. Both calls, before
  the loop and at the end of its body, are outside the \<^verbatim>\<open>try\<close>.
\<close>

type_synonym copier = "state \<Rightarrow> bool"

definition deepcopy :: "copier \<Rightarrow> state \<Rightarrow> exc + state" where
  "deepcopy copyable s = (if copyable s then Inr s else Inl RecursionError)"

text \<open>The \<^verbatim>\<open>return\<close> taken when \<^verbatim>\<open>TOOLS.get(tool_name)\<close> finds no tool: the store's
  state is not assigned on this path.\<close>

definition missing_tool :: "vars \<Rightarrow> string option \<Rightarrow> step" where
  "missing_tool v tool_name =
     Return \<lparr>final_run = (runs v)\<lparr>
                 r_log := log v @ [RunningNode (current v) tool_name, MissingTool tool_name],
                 r_status := Failed\<rparr>,
             executed = visited v + 1, uncaught = None\<rparr>"

text \<open>
  The part of the body after a tool has been found. A tool that raises is caught by the
  \<^verbatim>\<open>except\<close> clause; \<^verbatim>\<open>_condition_satisfied\<close> is called outside the \<^verbatim>\<open>try\<close>, so an
  exception it raises leaves \<^verbatim>\<open>execute_graph\<close> with the store as the push of line 175
  and 176 left it; so does an exception of the snapshot at the end of the body.
\<close>

definition run_tool :: "copier \<Rightarrow> graph \<Rightarrow> vars \<Rightarrow> string \<Rightarrow> tool \<Rightarrow> step" where
  "run_tool copyable g v tool_name tool_fn =
     (let log1 = log v @ [RunningNode (current v) (Some tool_name)] in
      case tool_fn (state v) of
        Inl e \<Rightarrow>
          Return \<lparr>final_run = (runs v)\<lparr>
                      r_state := state v,
                      r_log := log1 @ [ExceptionIn tool_name e],
                      r_status := Failed\<rparr>,
                  executed = visited v + 1, uncaught = None\<rparr>
      | Inr state1 \<Rightarrow>
          (let runs1 = (runs v)\<lparr>r_state := state1, r_log := log1\<rparr> in
           case condition_satisfied g state1 of
             Inl e \<Rightarrow> Return \<lparr>final_run = runs1, executed = visited v + 1, uncaught = Some e\<rparr>
           | Inr (satisfied, metric_val) \<Rightarrow>
               (if satisfied then
                  Return \<lparr>final_run = runs1\<lparr>
                              r_state := state1,
                              r_log := log1 @ [LoopStop (loop_condition g) metric_val],
                              r_status := Finished\<rparr>,
                          executed = visited v + 1, uncaught = None\<rparr>
                else if py_eq (PDict state1) (PDict (prev_state v)) then
                  Return \<lparr>final_run = runs1\<lparr>
                              r_state := state1,
                              r_log := log1 @ [StateUnchanged],
                              r_status := Finished\<rparr>,
                          executed = visited v + 1, uncaught = None\<rparr>
                else
                  (case deepcopy copyable state1 of
                     Inl e \<Rightarrow>
                       Return \<lparr>final_run = runs1, executed = visited v + 1, uncaught = Some e\<rparr>
                   | Inr prev_state1 \<Rightarrow>
                       (let v1 = v\<lparr>visited := visited v + 1, state := state1,
                                   prev_state := prev_state1, log := log1, runs := runs1\<rparr> in
                        case edges g (current v) of
                          None \<Rightarrow> Break v1
                        | Some next_node \<Rightarrow>
                            if next_node = [] then Break v1
                            else Continue (v1\<lparr>current := next_node\<rparr>))))))"

definition loop_body :: "copier \<Rightarrow> registry \<Rightarrow> graph \<Rightarrow> vars \<Rightarrow> step" where
  "loop_body copyable tools g v =
     (case nodes g (current v) of
        None \<Rightarrow> missing_tool v None
      | Some tool_name \<Rightarrow>
          (case tools tool_name of
             None \<Rightarrow> missing_tool v (Some tool_name)
           | Some tool_fn \<Rightarrow> run_tool copyable g v tool_name tool_fn))"

text \<open>The "normal finish" after the loop.\<close>

definition normal_finish :: "vars \<Rightarrow> outcome" where
  "normal_finish v =
     \<lparr>final_run =
        (if r_status (runs v) \<noteq> Failed then
           (runs v)\<lparr>r_state := state v, r_log := log v @ [ExecutionFinished],
                     r_status := Finished\<rparr>
         else runs v),
      executed = visited v, uncaught = None\<rparr>"

text \<open>The \<^verbatim>\<open>while current and visited < MAX_STEPS\<close> loop, for any value of the cap.\<close>

function run_loop :: "copier \<Rightarrow> nat \<Rightarrow> registry \<Rightarrow> graph \<Rightarrow> vars \<Rightarrow> outcome" where
  "run_loop copyable cap tools g v =
     (if current v \<noteq> [] \<and> visited v < cap then
        (case loop_body copyable tools g v of
           Return out \<Rightarrow> out
         | Break v1 \<Rightarrow> normal_finish v1
         | Continue v1 \<Rightarrow> run_loop copyable cap tools g v1)
      else normal_finish v)"
  by pat_completeness auto
termination
  by (relation "measure (\<lambda>(copyable, cap, tools, g, v). cap - visited v)")
     (auto simp: loop_body_def run_tool_def missing_tool_def Let_def
           simp: deepcopy_def
           split: option.splits sum.splits prod.splits if_splits)

declare run_loop.simps [simp del]

text \<open>
  The whole function, for any value of the cap: the statements before the loop, of which
  the snapshot \<^verbatim>\<open>prev_state = copy.deepcopy(state)\<close> can raise, then the loop and the
  normal finish. An exception of that snapshot leaves the function before any node has
  run, the run record untouched.
\<close>

definition execute_capped ::
  "nat \<Rightarrow> copier \<Rightarrow> registry \<Rightarrow> graph \<Rightarrow> run_record \<Rightarrow> outcome" where
  "execute_capped cap copyable tools g r =
     (case deepcopy copyable (r_state r) of
        Inl e \<Rightarrow> \<lparr>final_run = r, executed = 0, uncaught = Some e\<rparr>
      | Inr prev_state0 \<Rightarrow>
          run_loop copyable cap tools g
            \<lparr>current = start_node g, visited = 0, state = r_state r,
             prev_state = prev_state0, log = r_log r, runs = r\<rparr>)"

definition execute_graph :: "copier \<Rightarrow> registry \<Rightarrow> graph \<Rightarrow> run_record \<Rightarrow> outcome" where
  "execute_graph copyable tools g r = execute_capped MAX_STEPS copyable tools g r"

section \<open>Notions used to state the properties\<close>

text \<open>The variables with which the loop is entered when the snapshot before it has been
  made.\<close>

definition init_vars :: "graph \<Rightarrow> run_record \<Rightarrow> vars" where
  "init_vars g r =
     \<lparr>current = start_node g, visited = 0, state = r_state r,
      prev_state = r_state r, log = r_log r, runs = r\<rparr>"

text \<open>
  The variables at the head of the \<^verbatim>\<open>while\<close> loop once \<open>n\<close> passes through its body
  have been completed, each ending at the bottom of the body; \<open>None\<close> when the run has
  ended before. With \<open>n\<close> passes completed, the next pass is node execution \<open>n + 1\<close>.
\<close>

fun after_passes ::
  "copier \<Rightarrow> nat \<Rightarrow> registry \<Rightarrow> graph \<Rightarrow> vars \<Rightarrow> nat \<Rightarrow> vars option" where
  "after_passes copyable cap tools g v 0 = Some v"
| "after_passes copyable cap tools g v (Suc n) =
     (if current v \<noteq> [] \<and> visited v < cap then
        (case loop_body copyable tools g v of
           Continue v1 \<Rightarrow> after_passes copyable cap tools g v1 n
         | _ \<Rightarrow> None)
      else None)"

text \<open>
  The nesting depth of a value, and the interpreters used in the examples: those whose
  \<^verbatim>\<open>copy.deepcopy\<close> copies exactly the states nested no deeper than a given limit.
\<close>

fun py_depth :: "pyval \<Rightarrow> nat"
  and py_depth_list :: "pyval list \<Rightarrow> nat"
  and py_depth_items :: "pydict \<Rightarrow> nat" where
  "py_depth PNone = 0"
| "py_depth (PBool b) = 0"
| "py_depth (PInt i) = 0"
| "py_depth (PStr s) = 0"
| "py_depth (PList xs) = Suc (py_depth_list xs)"
| "py_depth (PTuple xs) = Suc (py_depth_list xs)"
| "py_depth (PDict d) = Suc (py_depth_items d)"
| "py_depth_list [] = 0"
| "py_depth_list (x # xs) = max (py_depth x) (py_depth_list xs)"
| "py_depth_items [] = 0"
| "py_depth_items ((k, v) # d) = max (py_depth v) (py_depth_items d)"

definition depth_limited :: "nat \<Rightarrow> copier" where
  "depth_limited limit s = (py_depth (PDict s) \<le> limit)"

text \<open>A Python dict has each key once. \<open>py_wf\<close> says so of every dict inside a value.\<close>

fun py_wf :: "pyval \<Rightarrow> bool"
  and py_wf_list :: "pyval list \<Rightarrow> bool"
  and py_wf_items :: "pydict \<Rightarrow> bool" where
  "py_wf PNone = True"
| "py_wf (PBool b) = True"
| "py_wf (PInt i) = True"
| "py_wf (PStr s) = True"
| "py_wf (PList xs) = py_wf_list xs"
| "py_wf (PTuple xs) = py_wf_list xs"
| "py_wf (PDict d) = (distinct (map fst d) \<and> py_wf_items d)"
| "py_wf_list [] = True"
| "py_wf_list (x # xs) = (py_wf x \<and> py_wf_list xs)"
| "py_wf_items [] = True"
| "py_wf_items ((k, v) # d) = (py_wf v \<and> py_wf_items d)"

text \<open>
  What a dotted path denotes in a nested mapping, in the words of the specification of the
  metric resolver: the value at the path, or that a key of the path is missing from the
  mapping reached, or that a value on the way is not a mapping.
\<close>

datatype path_result = Present pyval | Absent | NotMapping

fun spec_path_lookup :: "pyval \<Rightarrow> string list \<Rightarrow> path_result" where
  "spec_path_lookup cur [] = Present cur"
| "spec_path_lookup cur (p # ps) =
     (case cur of
        PDict d \<Rightarrow> (case map_of d p of None \<Rightarrow> Absent | Some v \<Rightarrow> spec_path_lookup v ps)
      | _ \<Rightarrow> NotMapping)"

section \<open>Scenarios\<close>

text \<open>The linear pipeline \<^verbatim>\<open>profile -> detect_anomalies -> generate_rules -> apply_rules\<close>
  with no loop condition, each node named after its tool, and a run on
  \<^verbatim>\<open>data=[1,None,150]\<close>, \<^verbatim>\<open>anomaly_bounds=(0,100)\<close> as the endpoints create it.\<close>

definition pipeline_graph :: graph where
  "pipeline_graph =
     \<lparr>nodes = [''profile'' \<mapsto> ''profile'', ''detect_anomalies'' \<mapsto> ''detect_anomalies'',
               ''generate_rules'' \<mapsto> ''generate_rules'', ''apply_rules'' \<mapsto> ''apply_rules''],
      edges = [''profile'' \<mapsto> ''detect_anomalies'', ''detect_anomalies'' \<mapsto> ''generate_rules'',
               ''generate_rules'' \<mapsto> ''apply_rules''],
      start_node = ''profile'',
      loop_condition = None\<rparr>"

definition pipeline_run :: run_record where
  "pipeline_run =
     \<lparr>r_state = [(''data'', PList [PInt 1, PNone, PInt 150]),
                 (''anomaly_bounds'', PTuple [PInt 0, PInt 100])],
      r_log = [], r_status = Running\<rparr>"

definition pipeline_final_state :: state where
  "pipeline_final_state =
     [(''data'', PList [PInt 1, PInt 0, PInt 100]),
      (''anomaly_bounds'', PTuple [PInt 0, PInt 100]),
      (''profile'', PDict [(''rows'', PInt 3), (''nulls'', PInt 1)]),
      (''anomalies'', PDict [(''count'', PInt 1), (''values'', PList [PInt 150])]),
      (''rules'', PList [fill_null_rule, clip_rule (PInt 0) (PInt 100)])]"

text \<open>The same pipeline closed into a loop from \<^verbatim>\<open>apply_rules\<close> back to
  \<^verbatim>\<open>detect_anomalies\<close>, stopping on \<^verbatim>\<open>anomalies.count <= 0\<close>.\<close>

definition stop_graph :: graph where
  "stop_graph =
     pipeline_graph\<lparr>
       edges := (edges pipeline_graph)(''apply_rules'' \<mapsto> ''detect_anomalies''),
       loop_condition := Some [(''metric'', PStr ''anomalies.count''), (''op'', PStr ''<=''),
                               (''value'', PInt 0)]\<rparr>"

text \<open>The loop variables of that run once four nodes have executed.\<close>

definition stop_vars :: vars where
  "stop_vars =
     \<lparr>current = ''detect_anomalies'', visited = 4,
      state = pipeline_final_state, prev_state = pipeline_final_state,
      log = [RunningNode ''profile'' (Some ''profile''),
             RunningNode ''detect_anomalies'' (Some ''detect_anomalies''),
             RunningNode ''generate_rules'' (Some ''generate_rules''),
             RunningNode ''apply_rules'' (Some ''apply_rules'')],
      runs = \<lparr>r_state = pipeline_final_state,
               r_log = [RunningNode ''profile'' (Some ''profile''),
                        RunningNode ''detect_anomalies'' (Some ''detect_anomalies''),
                        RunningNode ''generate_rules'' (Some ''generate_rules''),
                        RunningNode ''apply_rules'' (Some ''apply_rules'')],
               r_status = Running\<rparr>\<rparr>"

text \<open>A graph whose only node is bound to a tool name that is not in the registry.\<close>

definition missing_graph :: graph where
  "missing_graph =
     \<lparr>nodes = [''start'' \<mapsto> ''nonexistent''], edges = Map.empty,
      start_node = ''start'', loop_condition = None\<rparr>"

text \<open>A run of the pipeline on \<^verbatim>\<open>data=[1,"x"]\<close>: \<^verbatim>\<open>profile\<close> succeeds, then
  \<^verbatim>\<open>detect_anomalies\<close> raises on \<^verbatim>\<open>"x" < 0\<close>. \<open>bad_vars\<close> are the loop variables
  once \<^verbatim>\<open>profile\<close> has executed.\<close>

definition bad_run :: run_record where
  "bad_run =
     \<lparr>r_state = [(''data'', PList [PInt 1, PStr ''x''])], r_log = [], r_status = Running\<rparr>"

definition bad_vars :: vars where
  "bad_vars =
     \<lparr>current = ''detect_anomalies'', visited = 1,
      state = [(''data'', PList [PInt 1, PStr ''x'']),
               (''profile'', PDict [(''rows'', PInt 2), (''nulls'', PInt 0)])],
      prev_state = [(''data'', PList [PInt 1, PStr ''x'']),
                    (''profile'', PDict [(''rows'', PInt 2), (''nulls'', PInt 0)])],
      log = [RunningNode ''profile'' (Some ''profile'')],
      runs = \<lparr>r_state = [(''data'', PList [PInt 1, PStr ''x'']),
                         (''profile'', PDict [(''rows'', PInt 2), (''nulls'', PInt 0)])],
               r_log = [RunningNode ''profile'' (Some ''profile'')],
               r_status = Running\<rparr>\<rparr>"

text \<open>A single node with an edge to itself, bound to the tool name \<^verbatim>\<open>identity\<close>, and two
  registries for it that are not the repository's: one binds the name to the identity, the
  other to a tool that changes the state at every call by counting in the key \<^verbatim>\<open>n\<close>.\<close>

definition self_loop_graph :: graph where
  "self_loop_graph =
     \<lparr>nodes = [''a'' \<mapsto> ''identity''], edges = [''a'' \<mapsto> ''a''],
      start_node = ''a'', loop_condition = None\<rparr>"

definition identity_tool :: tool where
  "identity_tool s = Inr s"

definition identity_tools :: registry where
  "identity_tools = [''identity'' \<mapsto> identity_tool]"





text \<open>States for the metric resolver: \<^verbatim>\<open>anomalies.count\<close> is a number, is present with
  value \<^verbatim>\<open>None\<close>, or is missing.\<close>

definition deep_metric_state :: state where
  "deep_metric_state = [(''anomalies'', PDict [(''count'', PInt 1)])]"

definition null_metric_state :: state where
  "null_metric_state = [(''anomalies'', PDict [(''count'', PNone)])]"

definition no_metric_state :: state where
  "no_metric_state = [(''anomalies'', PDict [])]"

text \<open>States for \<^verbatim>\<open>apply_rules\<close>, with rules as \<^verbatim>\<open>generate_rules\<close> writes them: for the
  bounds \<^verbatim>\<open>(10, 100)\<close>, which do not contain the fill value 0, and for \<^verbatim>\<open>(0, 100)\<close>.\<close>

definition refill_state :: state where
  "refill_state =
     [(''data'', PList [PNone]),
      (''rules'', PList [fill_null_rule, clip_rule (PInt 10) (PInt 100)])]"

definition rules_state :: state where
  "rules_state =
     [(''data'', PList [PInt 1, PNone, PInt 150]),
      (''rules'', PList [fill_null_rule, clip_rule (PInt 0) (PInt 100)])]"

text \<open>A graph whose second node is bound to a tool name that is not in the registry.\<close>

definition late_missing_graph :: graph where
  "late_missing_graph =
     \<lparr>nodes = [''profile'' \<mapsto> ''profile'', ''next'' \<mapsto> ''nonexistent''],
      edges = [''profile'' \<mapsto> ''next''],
      start_node = ''profile'', loop_condition = None\<rparr>"

text \<open>The loop variables of the run of that graph on the scenario's initial state once
  \<^verbatim>\<open>profile\<close> has executed.\<close>

definition late_vars :: vars where
  "late_vars =
     \<lparr>current = ''next'', visited = 1,
      state = [(''data'', PList [PInt 1, PNone, PInt 150]),
               (''anomaly_bounds'', PTuple [PInt 0, PInt 100]),
               (''profile'', PDict [(''rows'', PInt 3), (''nulls'', PInt 1)])],
      prev_state = [(''data'', PList [PInt 1, PNone, PInt 150]),
                    (''anomaly_bounds'', PTuple [PInt 0, PInt 100]),
                    (''profile'', PDict [(''rows'', PInt 3), (''nulls'', PInt 1)])],
      log = [RunningNode ''profile'' (Some ''profile'')],
      runs = \<lparr>r_state = [(''data'', PList [PInt 1, PNone, PInt 150]),
                         (''anomaly_bounds'', PTuple [PInt 0, PInt 100]),
                         (''profile'', PDict [(''rows'', PInt 3), (''nulls'', PInt 1)])],
               r_log = [RunningNode ''profile'' (Some ''profile'')],
               r_status = Running\<rparr>\<rparr>"

text \<open>A run whose \<^verbatim>\<open>data\<close> is the number 5, which has no length.\<close>

definition unsized_run :: run_record where
  "unsized_run = \<lparr>r_state = [(''data'', PInt 5)], r_log = [], r_status = Running\<rparr>"

text \<open>A list nested \<open>n\<close> levels around an empty list, and a run on a state that holds
  one nested 500 levels deep, as a JSON body can be.\<close>

fun nested :: "nat \<Rightarrow> pyval" where
  "nested 0 = PList []"
| "nested (Suc n) = PList [nested n]"

definition deep_run :: run_record where
  "deep_run = \<lparr>r_state = [(''data'', nested 500)], r_log = [], r_status = Running\<rparr>"

section \<open>Lemmas about the loop\<close>

text \<open>A pass that reaches the bottom of the body has counted one node and left the store
  in step with the local variables; the status is not touched.\<close>

lemma loop_body_Continue:
  assumes "loop_body cp tools g v = Continue v1"
  shows "visited v1 = Suc (visited v)"
    and "r_state (runs v1) = state v1"
    and "r_log (runs v1) = log v1"
    and "r_status (runs v1) = r_status (runs v)"
  using assms
  by (auto simp: loop_body_def run_tool_def missing_tool_def deepcopy_def Let_def
           split: option.splits sum.splits prod.splits if_splits)

lemma after_passes_run_loop:
  "after_passes cp cap tools g v n = Some v' \<Longrightarrow> run_loop cp cap tools g v = run_loop cp cap tools g v'"
proof (induction n arbitrary: v)
  case 0
  then show ?case by simp
next
  case (Suc n)
  from Suc.prems obtain v1 where guard: "current v \<noteq> []" "visited v < cap"
    and body: "loop_body cp tools g v = Continue v1"
    and rest: "after_passes cp cap tools g v1 n = Some v'"
    by (auto split: if_splits step.splits)
  have "run_loop cp cap tools g v = run_loop cp cap tools g v1"
    using guard body by (simp add: run_loop.simps [of cp cap tools g v])
  with Suc.IH [OF rest] show ?case by simp
qed

lemma after_passes_visited:
  "after_passes cp cap tools g v n = Some v' \<Longrightarrow> visited v' = visited v + n"
proof (induction n arbitrary: v)
  case 0
  then show ?case by simp
next
  case (Suc n)
  from Suc.prems obtain v1 where body: "loop_body cp tools g v = Continue v1"
    and rest: "after_passes cp cap tools g v1 n = Some v'"
    by (auto split: if_splits step.splits)
  from Suc.IH [OF rest] loop_body_Continue(1) [OF body] show ?case by simp
qed

lemma after_passes_store:
  "after_passes cp cap tools g v n = Some v' \<Longrightarrow>
   r_state (runs v) = state v \<Longrightarrow> r_log (runs v) = log v \<Longrightarrow>
   r_state (runs v') = state v' \<and> r_log (runs v') = log v' \<and>
   r_status (runs v') = r_status (runs v)"
proof (induction n arbitrary: v)
  case 0
  then show ?case by simp
next
  case (Suc n)
  from Suc.prems(1) obtain v1 where body: "loop_body cp tools g v = Continue v1"
    and rest: "after_passes cp cap tools g v1 n = Some v'"
    by (auto split: if_splits step.splits)
  from Suc.IH [OF rest loop_body_Continue(2,3) [OF body]] loop_body_Continue(4) [OF body]
  show ?case by simp
qed

lemma after_passes_init:
  assumes "after_passes cp cap tools g (init_vars g r) n = Some v"
  shows "visited v = n" "r_state (runs v) = state v" "r_log (runs v) = log v"
    "r_status (runs v) = r_status r"
  using after_passes_visited [OF assms] after_passes_store [OF assms]
  by (simp_all add: init_vars_def)

lemma execute_entered:
  "cp (r_state r) \<Longrightarrow>
   execute_capped cap cp tools g r = run_loop cp cap tools g (init_vars g r)"
  by (simp add: execute_capped_def deepcopy_def init_vars_def)

lemma execute_not_entered:
  "\<not> cp (r_state r) \<Longrightarrow>
   execute_capped cap cp tools g r = \<lparr>final_run = r, executed = 0, uncaught = Some RecursionError\<rparr>"
  by (simp add: execute_capped_def deepcopy_def)

lemma run_loop_Return:
  "current v \<noteq> [] \<Longrightarrow> visited v < cap \<Longrightarrow> loop_body cp tools g v = Return out \<Longrightarrow>
   run_loop cp cap tools g v = out"
  by (simp add: run_loop.simps [of cp cap tools g v])

section \<open>Immediate loop stop\<close>

text \<open>
  C1. In every run that has entered the loop (the snapshot before it was made), let \<open>n\<close>
  nodes have executed and the loop be entered again (\<open>n < MAX_STEPS\<close>, \<open>current\<close> not
  empty), so that node execution \<open>k = n + 1\<close> takes place. If its tool returns the state \<open>s1\<close> and the loop condition evaluates to satisfied
  on \<open>s1\<close>, then the run is marked \<open>Finished\<close> in that same pass: the store holds \<open>s1\<close>,
  the log ends with the entry of node \<open>k\<close> followed by the loop-stop entry, and the count
  of node executions of the whole run is exactly \<open>k\<close>.
\<close>

theorem loop_stop_immediate:
  assumes copy: "cp (r_state r)"
    and reach: "after_passes cp MAX_STEPS tools g (init_vars g r) n = Some v"
    and guard: "current v \<noteq> []" "n < MAX_STEPS"
    and node: "nodes g (current v) = Some tool_name" "tools tool_name = Some tool_fn"
    and tool: "tool_fn (state v) = Inr s1"
    and cond: "condition_satisfied g s1 = Inr (True, m)"
  shows "execute_graph cp tools g r =
           \<lparr>final_run = \<lparr>r_state = s1,
                          r_log = log v @ [RunningNode (current v) (Some tool_name),
                                           LoopStop (loop_condition g) m],
                          r_status = Finished\<rparr>,
             executed = Suc n, uncaught = None\<rparr>"
proof -
  note inv = after_passes_init [OF reach]
  have body: "loop_body cp tools g v =
      Return \<lparr>final_run = \<lparr>r_state = s1,
                             r_log = log v @ [RunningNode (current v) (Some tool_name),
                                              LoopStop (loop_condition g) m],
                             r_status = Finished\<rparr>,
              executed = Suc n, uncaught = None\<rparr>"
    using node tool cond inv by (simp add: loop_body_def run_tool_def Let_def)
  have "execute_graph cp tools g r = run_loop cp MAX_STEPS tools g v"
    using after_passes_run_loop [OF reach] copy
    by (simp add: execute_graph_def execute_entered)
  also have "\<dots> = \<lparr>final_run = \<lparr>r_state = s1,
                             r_log = log v @ [RunningNode (current v) (Some tool_name),
                                              LoopStop (loop_condition g) m],
                             r_status = Finished\<rparr>,
              executed = Suc n, uncaught = None\<rparr>"
    using guard inv(1) body by (intro run_loop_Return) simp_all
  finally show ?thesis .
qed

text \<open>The looping pipeline stops at its fifth node, the first one after which
  \<^verbatim>\<open>anomalies.count\<close> is 0.\<close>

theorem loop_stop_immediate_witness:
  "depth_limited 400 (r_state pipeline_run)
   \<and> after_passes (depth_limited 400) MAX_STEPS TOOLS stop_graph
        (init_vars stop_graph pipeline_run) 4 = Some stop_vars
   \<and> condition_satisfied stop_graph
        (dict_set ''anomalies'' (PDict [(''count'', PInt 0), (''values'', PList [])])
           pipeline_final_state) = Inr (True, PInt 0)
   \<and> execute_graph (depth_limited 400) TOOLS stop_graph pipeline_run =
       \<lparr>final_run =
          \<lparr>r_state = dict_set ''anomalies'' (PDict [(''count'', PInt 0), (''values'', PList [])])
                       pipeline_final_state,
           r_log = log stop_vars @ [RunningNode ''detect_anomalies'' (Some ''detect_anomalies''),
                                    LoopStop (loop_condition stop_graph) (PInt 0)],
           r_status = Finished\<rparr>,
        executed = 5, uncaught = None\<rparr>"
proof -
  have copy: "depth_limited 400 (r_state pipeline_run)"
    by code_simp
  have reach: "after_passes (depth_limited 400) MAX_STEPS TOOLS stop_graph
      (init_vars stop_graph pipeline_run) 4 = Some stop_vars"
    by code_simp
  have guard: "current stop_vars \<noteq> []" "4 < MAX_STEPS"
    by (simp_all add: stop_vars_def MAX_STEPS_def)
  have node: "nodes stop_graph (current stop_vars) = Some ''detect_anomalies''"
    "TOOLS ''detect_anomalies'' = Some detect_anomalies_tool"
    by (simp_all add: stop_vars_def stop_graph_def pipeline_graph_def TOOLS_def)
  have tool: "detect_anomalies_tool (state stop_vars) =
      Inr (dict_set ''anomalies'' (PDict [(''count'', PInt 0), (''values'', PList [])])
             pipeline_final_state)"
    by code_simp
  have cond: "condition_satisfied stop_graph
      (dict_set ''anomalies'' (PDict [(''count'', PInt 0), (''values'', PList [])])
         pipeline_final_state) = Inr (True, PInt 0)"
    by code_simp
  have cur: "current stop_vars = ''detect_anomalies''"
    by (simp add: stop_vars_def)
  from loop_stop_immediate [OF copy reach guard node tool cond] copy reach cond cur
  show ?thesis by simp
qed

section \<open>The pipeline scenario\<close>

text \<open>
  A run that ends without a \<^verbatim>\<open>RecursionError\<close> on an interpreter that copies fewer
  states ends in the same way on one that copies more.
\<close>

lemma loop_body_copier:
  assumes weaker: "\<forall>s. cq s \<longrightarrow> cp s"
    and ok: "\<forall>out. loop_body cq tools g v = Return out \<longrightarrow> uncaught out \<noteq> Some RecursionError"
  shows "loop_body cp tools g v = loop_body cq tools g v"
proof (cases "nodes g (current v)")
  case None
  then show ?thesis by (simp add: loop_body_def)
next
  case (Some tool_name)
  show ?thesis
  proof (cases "tools tool_name")
    case None
    with Some show ?thesis by (simp add: loop_body_def)
  next
    case tool: (Some tool_fn)
    have "run_tool cp g v tool_name tool_fn = run_tool cq g v tool_name tool_fn"
    proof (cases "tool_fn (state v)")
      case (Inl e)
      then show ?thesis by (simp add: run_tool_def)
    next
      case (Inr state1)
      show ?thesis
      proof (cases "cq state1")
        case True
        with weaker have "cp state1" by blast
        with True Inr show ?thesis
          by (auto simp: run_tool_def deepcopy_def Let_def split: sum.splits prod.splits)
      next
        case False
        with ok Some tool Inr show ?thesis
          by (auto simp: loop_body_def run_tool_def deepcopy_def Let_def
                   split: sum.splits prod.splits if_splits)
      qed
    qed
    with Some tool show ?thesis by (simp add: loop_body_def)
  qed
qed

lemma run_loop_copier:
  "\<forall>s. cq s \<longrightarrow> cp s \<Longrightarrow>
   uncaught (run_loop cq cap tools g v) \<noteq> Some RecursionError \<Longrightarrow>
   run_loop cp cap tools g v = run_loop cq cap tools g v"
proof (induction cq cap tools g v rule: run_loop.induct)
  case (1 cq cap tools g v)
  note weaker = "1.prems"(1)
  show ?case
  proof (cases "current v \<noteq> [] \<and> visited v < cap")
    case False
    then show ?thesis
      by (auto simp: run_loop.simps [of cp cap tools g v] run_loop.simps [of cq cap tools g v])
  next
    case True
    have ok: "\<forall>out. loop_body cq tools g v = Return out \<longrightarrow> uncaught out \<noteq> Some RecursionError"
      using True "1.prems"(2) by (auto simp: run_loop.simps [of cq cap tools g v])
    note same = loop_body_copier [OF weaker ok]
    show ?thesis
    proof (cases "loop_body cq tools g v")
      case (Return out)
      with True same show ?thesis
        by (simp add: run_loop.simps [of cp cap tools g v] run_loop.simps [of cq cap tools g v])
    next
      case (Break v1)
      with True same show ?thesis
        by (simp add: run_loop.simps [of cp cap tools g v] run_loop.simps [of cq cap tools g v])
    next
      case (Continue v1)
      have "uncaught (run_loop cq cap tools g v1) \<noteq> Some RecursionError"
        using True Continue "1.prems"(2) by (simp add: run_loop.simps [of cq cap tools g v])
      from "1.IH" [OF True Continue weaker this] True Continue same show ?thesis
        by (simp add: run_loop.simps [of cp cap tools g v] run_loop.simps [of cq cap tools g v])
    qed
  qed
qed

lemma execute_copier:
  assumes weaker: "\<forall>s. cq s \<longrightarrow> cp s"
    and ok: "uncaught (execute_graph cq tools g r) \<noteq> Some RecursionError"
  shows "execute_graph cp tools g r = execute_graph cq tools g r"
proof -
  from ok have cq: "cq (r_state r)"
    by (auto simp: execute_graph_def execute_capped_def deepcopy_def split: if_splits)
  with weaker have cp: "cp (r_state r)" by blast
  from ok cq have "uncaught (run_loop cq MAX_STEPS tools g (init_vars g r)) \<noteq> Some RecursionError"
    by (simp add: execute_graph_def execute_entered)
  from run_loop_copier [OF weaker this] cp cq show ?thesis
    by (simp add: execute_graph_def execute_entered)
qed

text \<open>
  C2. The linear pipeline without loop condition, run on \<^verbatim>\<open>data=[1,None,150]\<close> and
  \<^verbatim>\<open>anomaly_bounds=(0,100)\<close>, returns with status \<open>Finished\<close> after four node
  executions; the final state has \<^verbatim>\<open>data=[1,0,100]\<close>, \<^verbatim>\<open>profile={rows:3,nulls:1}\<close>,
  \<^verbatim>\<open>anomalies={count:1,values:[150]}\<close> and the rules \<^verbatim>\<open>fill_null\<close> and \<^verbatim>\<open>clip\<close>, in
  that order. This holds on every interpreter whose \<^verbatim>\<open>copy.deepcopy\<close> copies states
  nested three levels deep, the deepest this run builds.
\<close>

theorem pipeline_scenario:
  assumes "\<forall>s. py_depth (PDict s) \<le> 3 \<longrightarrow> cp s"
  shows "execute_graph cp TOOLS pipeline_graph pipeline_run =
     \<lparr>final_run =
        \<lparr>r_state =
           [(''data'', PList [PInt 1, PInt 0, PInt 100]),
            (''anomaly_bounds'', PTuple [PInt 0, PInt 100]),
            (''profile'', PDict [(''rows'', PInt 3), (''nulls'', PInt 1)]),
            (''anomalies'', PDict [(''count'', PInt 1), (''values'', PList [PInt 150])]),
            (''rules'', PList [fill_null_rule, clip_rule (PInt 0) (PInt 100)])],
         r_log = [RunningNode ''profile'' (Some ''profile''),
                  RunningNode ''detect_anomalies'' (Some ''detect_anomalies''),
                  RunningNode ''generate_rules'' (Some ''generate_rules''),
                  RunningNode ''apply_rules'' (Some ''apply_rules''),
                  ExecutionFinished],
         r_status = Finished\<rparr>,
      executed = 4, uncaught = None\<rparr>"
proof -
  have run3: "execute_graph (depth_limited 3) TOOLS pipeline_graph pipeline_run =
     \<lparr>final_run =
        \<lparr>r_state =
           [(''data'', PList [PInt 1, PInt 0, PInt 100]),
            (''anomaly_bounds'', PTuple [PInt 0, PInt 100]),
            (''profile'', PDict [(''rows'', PInt 3), (''nulls'', PInt 1)]),
            (''anomalies'', PDict [(''count'', PInt 1), (''values'', PList [PInt 150])]),
            (''rules'', PList [fill_null_rule, clip_rule (PInt 0) (PInt 100)])],
         r_log = [RunningNode ''profile'' (Some ''profile''),
                  RunningNode ''detect_anomalies'' (Some ''detect_anomalies''),
                  RunningNode ''generate_rules'' (Some ''generate_rules''),
                  RunningNode ''apply_rules'' (Some ''apply_rules''),
                  ExecutionFinished],
         r_status = Finished\<rparr>,
      executed = 4, uncaught = None\<rparr>"
    by code_simp
  have weaker: "\<forall>s. depth_limited 3 s \<longrightarrow> cp s"
    using assms by (simp add: depth_limited_def)
  have "uncaught (execute_graph (depth_limited 3) TOOLS pipeline_graph pipeline_run)
      \<noteq> Some RecursionError"
    by (simp add: run3)
  from execute_copier [OF weaker this] run3 show ?thesis by simp
qed

text \<open>An interpreter that copies states up to 400 levels deep.\<close>

theorem pipeline_scenario_witness:
  "r_state (final_run (execute_graph (depth_limited 400) TOOLS pipeline_graph pipeline_run))
       = pipeline_final_state
   \<and> r_status (final_run (execute_graph (depth_limited 400) TOOLS pipeline_graph pipeline_run))
       = Finished
   \<and> executed (execute_graph (depth_limited 400) TOOLS pipeline_graph pipeline_run) = 4"
proof -
  have h: "\<forall>s. py_depth (PDict s) \<le> 3 \<longrightarrow> depth_limited 400 s"
    by (simp add: depth_limited_def)
  from pipeline_scenario [OF h] show ?thesis
    by (simp add: pipeline_final_state_def)
qed

section \<open>More lemmas about the loop\<close>



lemma after_passes_Suc_right:
  "after_passes cp cap tools g v (Suc n) =
     (case after_passes cp cap tools g v n of None \<Rightarrow> None
      | Some u \<Rightarrow> after_passes cp cap tools g u (Suc 0))"
proof (induction n arbitrary: v)
  case 0
  show ?case by simp
next
  case (Suc n)
  show ?case
  proof (cases "current v \<noteq> [] \<and> visited v < cap")
    case False
    then show ?thesis by auto
  next
    case True
    then show ?thesis
    proof (cases "loop_body cp tools g v")
      case (Continue v1)
      with True Suc.IH [of v1] show ?thesis by simp
    qed simp_all
  qed
qed

lemma loop_body_Continue_tool:
  "loop_body cp tools g u = Continue v \<Longrightarrow>
   \<exists>t f. nodes g (current u) = Some t \<and> tools t = Some f \<and> f (state u) = Inr (state v)"
  by (auto simp: loop_body_def run_tool_def missing_tool_def deepcopy_def Let_def
           split: option.splits sum.splits prod.splits if_splits)

lemma after_passes_last_tool:
  assumes "after_passes cp cap tools g v0 (Suc m) = Some v" "after_passes cp cap tools g v0 m = Some u"
  shows "\<exists>t f. nodes g (current u) = Some t \<and> tools t = Some f \<and> f (state u) = Inr (state v)"
proof -
  from assms after_passes_Suc_right [of cp cap tools g v0 m]
  have "after_passes cp cap tools g u (Suc 0) = Some v"
    by (simp del: after_passes.simps)
  then have "loop_body cp tools g u = Continue v"
    by (auto split: if_splits step.splits)
  then show ?thesis by (rule loop_body_Continue_tool)
qed

section \<open>Missing tool\<close>

text \<open>
  C7, as the code has it. In every run that has entered the loop (the snapshot before it
  was made), let \<open>n\<close> nodes have executed and the loop be entered again with a current node whose bound tool name is not in the registry. Then the
  run ends with status \<open>Failed\<close>; the log ends with the entry of that node followed by an
  entry naming the missing tool; the count of node executions stays at \<open>n + 1\<close>, so
  nothing runs after it; and the state in the run record is the state that entered the
  node: the initial state of the run when it is the first node, and otherwise the state
  returned by the tool of the node before it.
\<close>

theorem missing_tool_fails:
  assumes copy: "cp (r_state r)"
    and reach: "after_passes cp MAX_STEPS tools g (init_vars g r) n = Some v"
    and guard: "current v \<noteq> []" "n < MAX_STEPS"
    and absent: "nodes g (current v) = Some tool_name" "tools tool_name = None"
  shows "execute_graph cp tools g r =
           \<lparr>final_run = \<lparr>r_state = state v,
                          r_log = log v @ [RunningNode (current v) (Some tool_name),
                                           MissingTool (Some tool_name)],
                          r_status = Failed\<rparr>,
             executed = Suc n, uncaught = None\<rparr>
         \<and> (n = 0 \<longrightarrow> state v = r_state r)
         \<and> (\<forall>m u. n = Suc m \<and> after_passes cp MAX_STEPS tools g (init_vars g r) m = Some u \<longrightarrow>
               (\<exists>t f. nodes g (current u) = Some t \<and> tools t = Some f
                      \<and> f (state u) = Inr (state v)))"
proof (intro conjI allI impI)
  note inv = after_passes_init [OF reach]
  have body: "loop_body cp tools g v =
      Return \<lparr>final_run = \<lparr>r_state = state v,
                             r_log = log v @ [RunningNode (current v) (Some tool_name),
                                              MissingTool (Some tool_name)],
                             r_status = Failed\<rparr>,
              executed = Suc n, uncaught = None\<rparr>"
    using absent inv by (simp add: loop_body_def missing_tool_def)
  have "execute_graph cp tools g r = run_loop cp MAX_STEPS tools g v"
    using after_passes_run_loop [OF reach] copy
    by (simp add: execute_graph_def execute_entered)
  also have "\<dots> = \<lparr>final_run = \<lparr>r_state = state v,
                             r_log = log v @ [RunningNode (current v) (Some tool_name),
                                              MissingTool (Some tool_name)],
                             r_status = Failed\<rparr>,
              executed = Suc n, uncaught = None\<rparr>"
    using guard inv(1) body by (intro run_loop_Return) simp_all
  finally show "execute_graph cp tools g r =
           \<lparr>final_run = \<lparr>r_state = state v,
                          r_log = log v @ [RunningNode (current v) (Some tool_name),
                                           MissingTool (Some tool_name)],
                          r_status = Failed\<rparr>,
             executed = Suc n, uncaught = None\<rparr>" .
next
  assume "n = 0"
  with reach show "state v = r_state r" by (auto simp: init_vars_def)
next
  fix m u
  assume h: "n = Suc m \<and> after_passes cp MAX_STEPS tools g (init_vars g r) m = Some u"
  with reach have "after_passes cp MAX_STEPS tools g (init_vars g r) (Suc m) = Some v"
    by (simp del: after_passes.simps)
  from after_passes_last_tool [OF this] h
  show "\<exists>t f. nodes g (current u) = Some t \<and> tools t = Some f
                      \<and> f (state u) = Inr (state v)"
    by simp
qed

text \<open>When the node with the missing tool is the second one, the run record keeps the
  state \<^verbatim>\<open>profile\<close> produced, which is not the state the run started from.\<close>

theorem missing_tool_counterexample:
  "execute_graph (depth_limited 400) TOOLS late_missing_graph pipeline_run =
     \<lparr>final_run =
        \<lparr>r_state = [(''data'', PList [PInt 1, PNone, PInt 150]),
                    (''anomaly_bounds'', PTuple [PInt 0, PInt 100]),
                    (''profile'', PDict [(''rows'', PInt 3), (''nulls'', PInt 1)])],
         r_log = [RunningNode ''profile'' (Some ''profile''),
                  RunningNode ''next'' (Some ''nonexistent''),
                  MissingTool (Some ''nonexistent'')],
         r_status = Failed\<rparr>,
      executed = 2, uncaught = None\<rparr>
   \<and> r_state (final_run (execute_graph (depth_limited 400) TOOLS late_missing_graph pipeline_run))
       \<noteq> r_state pipeline_run
   \<and> \<not> py_eq (PDict (r_state (final_run (execute_graph (depth_limited 400) TOOLS late_missing_graph pipeline_run))))
              (PDict (r_state pipeline_run))"
  by code_simp

text \<open>The graph that names the tool \<^verbatim>\<open>nonexistent\<close> in its first node, and the one that
  names it in its second node, on the scenario's initial state.\<close>

theorem missing_tool_fails_witness:
  "depth_limited 400 (r_state pipeline_run)
   \<and> after_passes (depth_limited 400) MAX_STEPS TOOLS missing_graph (init_vars missing_graph pipeline_run) 0
     = Some (init_vars missing_graph pipeline_run)
   \<and> TOOLS ''nonexistent'' = None
   \<and> execute_graph (depth_limited 400) TOOLS missing_graph pipeline_run =
       \<lparr>final_run = \<lparr>r_state = r_state pipeline_run,
                      r_log = [RunningNode ''start'' (Some ''nonexistent''),
                               MissingTool (Some ''nonexistent'')],
                      r_status = Failed\<rparr>,
        executed = 1, uncaught = None\<rparr>
   \<and> after_passes (depth_limited 400) MAX_STEPS TOOLS late_missing_graph (init_vars late_missing_graph pipeline_run) 1
       = Some late_vars
   \<and> execute_graph (depth_limited 400) TOOLS late_missing_graph pipeline_run =
       \<lparr>final_run = \<lparr>r_state = state late_vars,
                      r_log = [RunningNode ''profile'' (Some ''profile''),
                               RunningNode ''next'' (Some ''nonexistent''),
                               MissingTool (Some ''nonexistent'')],
                      r_status = Failed\<rparr>,
        executed = 2, uncaught = None\<rparr>
   \<and> (\<exists>t f. nodes late_missing_graph ''profile'' = Some t \<and> TOOLS t = Some f
            \<and> f (r_state pipeline_run) = Inr (state late_vars))"
proof -
  have copy: "depth_limited 400 (r_state pipeline_run)"
    by code_simp
  have reach: "after_passes (depth_limited 400) MAX_STEPS TOOLS missing_graph
      (init_vars missing_graph pipeline_run) 0 = Some (init_vars missing_graph pipeline_run)"
    by simp
  have guard: "current (init_vars missing_graph pipeline_run) \<noteq> []" "0 < MAX_STEPS"
    by (simp_all add: init_vars_def missing_graph_def MAX_STEPS_def)
  have absent: "nodes missing_graph (current (init_vars missing_graph pipeline_run))
      = Some ''nonexistent''" "TOOLS ''nonexistent'' = None"
    by (simp_all add: init_vars_def missing_graph_def TOOLS_def)
  have first: "execute_graph (depth_limited 400) TOOLS missing_graph pipeline_run =
       \<lparr>final_run = \<lparr>r_state = r_state pipeline_run,
                      r_log = [RunningNode ''start'' (Some ''nonexistent''),
                               MissingTool (Some ''nonexistent'')],
                      r_status = Failed\<rparr>,
        executed = 1, uncaught = None\<rparr>"
    using missing_tool_fails [OF copy reach guard absent]
    by (simp add: init_vars_def missing_graph_def pipeline_run_def)
  have reach1: "after_passes (depth_limited 400) MAX_STEPS TOOLS late_missing_graph
      (init_vars late_missing_graph pipeline_run) 1 = Some late_vars"
    by code_simp
  have reach0: "after_passes (depth_limited 400) MAX_STEPS TOOLS late_missing_graph
      (init_vars late_missing_graph pipeline_run) 0 = Some (init_vars late_missing_graph pipeline_run)"
    by simp
  have guard1: "current late_vars \<noteq> []" "1 < MAX_STEPS"
    by (simp_all add: late_vars_def MAX_STEPS_def)
  have absent1: "nodes late_missing_graph (current late_vars) = Some ''nonexistent''"
    by (simp add: late_vars_def late_missing_graph_def)
  note second = missing_tool_fails [OF copy reach1 guard1 absent1 absent(2)]
  from second have run: "execute_graph (depth_limited 400) TOOLS late_missing_graph pipeline_run =
       \<lparr>final_run = \<lparr>r_state = state late_vars,
                      r_log = [RunningNode ''profile'' (Some ''profile''),
                               RunningNode ''next'' (Some ''nonexistent''),
                               MissingTool (Some ''nonexistent'')],
                      r_status = Failed\<rparr>,
        executed = 2, uncaught = None\<rparr>"
    by (simp add: late_vars_def)
  from second reach0
  have "\<exists>t f. nodes late_missing_graph (current (init_vars late_missing_graph pipeline_run)) = Some t
          \<and> TOOLS t = Some f
          \<and> f (state (init_vars late_missing_graph pipeline_run)) = Inr (state late_vars)"
    by (simp del: after_passes.simps)
  then have prev: "\<exists>t f. nodes late_missing_graph ''profile'' = Some t \<and> TOOLS t = Some f
            \<and> f (r_state pipeline_run) = Inr (state late_vars)"
    by (simp add: init_vars_def late_missing_graph_def)
  from copy reach absent(2) first reach1 run prev show ?thesis by blast
qed

section \<open>Tool failure\<close>

text \<open>
  C8. In every run that has entered the loop (the snapshot before it was made), let \<open>n\<close>
  nodes have executed and the loop be entered again with a node whose tool raises \<open>e\<close>. Then the exception does not leave \<^verbatim>\<open>execute_graph\<close>; the
  log ends with the entry of that node followed by an entry carrying the tool name and
  \<open>e\<close>; the run ends with status \<open>Failed\<close> after \<open>n + 1\<close> node executions; and the state
  in the run record is the state the failing node received: the initial state when it is
  the first node, and otherwise the state returned by the tool of the node before it.
\<close>

theorem tool_failure_atomic:
  assumes copy: "cp (r_state r)"
    and reach: "after_passes cp MAX_STEPS tools g (init_vars g r) n = Some v"
    and guard: "current v \<noteq> []" "n < MAX_STEPS"
    and node: "nodes g (current v) = Some tool_name" "tools tool_name = Some tool_fn"
    and fail: "tool_fn (state v) = Inl e"
  shows "execute_graph cp tools g r =
           \<lparr>final_run = \<lparr>r_state = state v,
                          r_log = log v @ [RunningNode (current v) (Some tool_name),
                                           ExceptionIn tool_name e],
                          r_status = Failed\<rparr>,
             executed = Suc n, uncaught = None\<rparr>
         \<and> (n = 0 \<longrightarrow> state v = r_state r)
         \<and> (\<forall>m u. n = Suc m \<and> after_passes cp MAX_STEPS tools g (init_vars g r) m = Some u \<longrightarrow>
               (\<exists>t f. nodes g (current u) = Some t \<and> tools t = Some f
                      \<and> f (state u) = Inr (state v)))"
proof (intro conjI allI impI)
  note inv = after_passes_init [OF reach]
  have body: "loop_body cp tools g v =
      Return \<lparr>final_run = \<lparr>r_state = state v,
                          r_log = log v @ [RunningNode (current v) (Some tool_name),
                                           ExceptionIn tool_name e],
                          r_status = Failed\<rparr>,
             executed = Suc n, uncaught = None\<rparr>"
    using node fail inv by (simp add: loop_body_def run_tool_def Let_def)
  have "execute_graph cp tools g r = run_loop cp MAX_STEPS tools g v"
    using after_passes_run_loop [OF reach] copy
    by (simp add: execute_graph_def execute_entered)
  also have "\<dots> = \<lparr>final_run = \<lparr>r_state = state v,
                          r_log = log v @ [RunningNode (current v) (Some tool_name),
                                           ExceptionIn tool_name e],
                          r_status = Failed\<rparr>,
             executed = Suc n, uncaught = None\<rparr>"
    using guard inv(1) body by (intro run_loop_Return) simp_all
  finally show "execute_graph cp tools g r =
           \<lparr>final_run = \<lparr>r_state = state v,
                          r_log = log v @ [RunningNode (current v) (Some tool_name),
                                           ExceptionIn tool_name e],
                          r_status = Failed\<rparr>,
             executed = Suc n, uncaught = None\<rparr>" .
next
  assume "n = 0"
  with reach show "state v = r_state r" by (auto simp: init_vars_def)
next
  fix m u
  assume h: "n = Suc m \<and> after_passes cp MAX_STEPS tools g (init_vars g r) m = Some u"
  with reach have "after_passes cp MAX_STEPS tools g (init_vars g r) (Suc m) = Some v"
    by (simp del: after_passes.simps)
  from after_passes_last_tool [OF this] h
  show "\<exists>t f. nodes g (current u) = Some t \<and> tools t = Some f
                      \<and> f (state u) = Inr (state v)"
    by simp
qed

text \<open>The pipeline on \<^verbatim>\<open>data=[1,"x"]\<close> fails in its second node and keeps the state
  \<^verbatim>\<open>profile\<close> produced; on \<^verbatim>\<open>data=5\<close> it fails in its first node and keeps the
  initial state.\<close>

theorem tool_failure_atomic_witness:
  "depth_limited 400 (r_state bad_run) \<and> depth_limited 400 (r_state unsized_run)
   \<and> after_passes (depth_limited 400) MAX_STEPS TOOLS pipeline_graph (init_vars pipeline_graph bad_run) 1 = Some bad_vars
   \<and> detect_anomalies_tool (state bad_vars) = Inl TypeError
   \<and> execute_graph (depth_limited 400) TOOLS pipeline_graph bad_run =
       \<lparr>final_run =
          \<lparr>r_state = [(''data'', PList [PInt 1, PStr ''x'']),
                      (''profile'', PDict [(''rows'', PInt 2), (''nulls'', PInt 0)])],
           r_log = [RunningNode ''profile'' (Some ''profile''),
                    RunningNode ''detect_anomalies'' (Some ''detect_anomalies''),
                    ExceptionIn ''detect_anomalies'' TypeError],
           r_status = Failed\<rparr>,
        executed = 2, uncaught = None\<rparr>
   \<and> (\<exists>t f. nodes pipeline_graph ''profile'' = Some t \<and> TOOLS t = Some f
            \<and> f (r_state bad_run) = Inr (state bad_vars))
   \<and> profile_data_tool (r_state unsized_run) = Inl TypeError
   \<and> execute_graph (depth_limited 400) TOOLS pipeline_graph unsized_run =
       \<lparr>final_run =
          \<lparr>r_state = r_state unsized_run,
           r_log = [RunningNode ''profile'' (Some ''profile''),
                    ExceptionIn ''profile'' TypeError],
           r_status = Failed\<rparr>,
        executed = 1, uncaught = None\<rparr>"
proof -
  have copy: "depth_limited 400 (r_state bad_run)"
    by code_simp
  have copyu: "depth_limited 400 (r_state unsized_run)"
    by code_simp
  have reach: "after_passes (depth_limited 400) MAX_STEPS TOOLS pipeline_graph
      (init_vars pipeline_graph bad_run) 1 = Some bad_vars"
    by code_simp
  have reach0: "after_passes (depth_limited 400) MAX_STEPS TOOLS pipeline_graph (init_vars pipeline_graph bad_run) 0
      = Some (init_vars pipeline_graph bad_run)"
    by simp
  have guard: "current bad_vars \<noteq> []" "1 < MAX_STEPS"
    by (simp_all add: bad_vars_def MAX_STEPS_def)
  have node: "nodes pipeline_graph (current bad_vars) = Some ''detect_anomalies''"
    "TOOLS ''detect_anomalies'' = Some detect_anomalies_tool"
    by (simp_all add: bad_vars_def pipeline_graph_def TOOLS_def)
  have fail: "detect_anomalies_tool (state bad_vars) = Inl TypeError"
    by code_simp
  note second = tool_failure_atomic [OF copy reach guard node fail]
  from second have run: "execute_graph (depth_limited 400) TOOLS pipeline_graph bad_run =
       \<lparr>final_run =
          \<lparr>r_state = [(''data'', PList [PInt 1, PStr ''x'']),
                      (''profile'', PDict [(''rows'', PInt 2), (''nulls'', PInt 0)])],
           r_log = [RunningNode ''profile'' (Some ''profile''),
                    RunningNode ''detect_anomalies'' (Some ''detect_anomalies''),
                    ExceptionIn ''detect_anomalies'' TypeError],
           r_status = Failed\<rparr>,
        executed = 2, uncaught = None\<rparr>"
    by (simp add: bad_vars_def)
  from second reach0
  have "\<exists>t f. nodes pipeline_graph (current (init_vars pipeline_graph bad_run)) = Some t
          \<and> TOOLS t = Some f
          \<and> f (state (init_vars pipeline_graph bad_run)) = Inr (state bad_vars)"
    by (simp del: after_passes.simps)
  then have prev: "\<exists>t f. nodes pipeline_graph ''profile'' = Some t \<and> TOOLS t = Some f
            \<and> f (r_state bad_run) = Inr (state bad_vars)"
    by (simp add: init_vars_def pipeline_graph_def)
  have reachu: "after_passes (depth_limited 400) MAX_STEPS TOOLS pipeline_graph (init_vars pipeline_graph unsized_run) 0
      = Some (init_vars pipeline_graph unsized_run)"
    by simp
  have guardu: "current (init_vars pipeline_graph unsized_run) \<noteq> []" "0 < MAX_STEPS"
    by (simp_all add: init_vars_def pipeline_graph_def MAX_STEPS_def)
  have nodeu: "nodes pipeline_graph (current (init_vars pipeline_graph unsized_run))
      = Some ''profile''" "TOOLS ''profile'' = Some profile_data_tool"
    by (simp_all add: init_vars_def pipeline_graph_def TOOLS_def)
  have failu: "profile_data_tool (state (init_vars pipeline_graph unsized_run)) = Inl TypeError"
    by code_simp
  have failu': "profile_data_tool (r_state unsized_run) = Inl TypeError"
    by code_simp
  have first: "execute_graph (depth_limited 400) TOOLS pipeline_graph unsized_run =
       \<lparr>final_run =
          \<lparr>r_state = r_state unsized_run,
           r_log = [RunningNode ''profile'' (Some ''profile''),
                    ExceptionIn ''profile'' TypeError],
           r_status = Failed\<rparr>,
        executed = 1, uncaught = None\<rparr>"
    using tool_failure_atomic [OF copyu reachu guardu nodeu failu]
    by (simp add: init_vars_def pipeline_graph_def unsized_run_def)
  from copy copyu reach fail run prev failu' first show ?thesis by blast
qed

section \<open>Step budget\<close>















section \<open>The fixed-point check on an identity tool\<close>

lemma py_eq_refl_aux:
  "py_wf v \<longrightarrow> py_eq v v"
  "py_wf_list xs \<longrightarrow> py_eq_list xs xs"
  "py_wf_items d \<longrightarrow> (\<forall>e. (\<forall>kv\<in>set d. map_of e (fst kv) = Some (snd kv)) \<longrightarrow> py_eq_items d e)"
  by (induction v and xs and d rule: py_wf_py_wf_list_py_wf_items.induct) auto

lemma py_eq_refl: "py_wf v \<Longrightarrow> py_eq v v"
  by (simp add: py_eq_refl_aux)

text \<open>
  C3, as the code has it. A graph that starts at a node with a non-empty name, bound to a
  tool that returns its argument, with an edge to itself, run on a state whose dicts have
  each key once and on which the loop condition, if any, evaluates without raising. When
  the snapshot before the loop can be made, the run ends with status \<open>Finished\<close> after
  exactly one node execution, for every step cap of at least 1: the state after the first
  execution is compared with that snapshot, so no second execution is needed to detect
  that nothing changed. When the state is nested too deep for \<^verbatim>\<open>copy.deepcopy\<close>, the
  \<^verbatim>\<open>RecursionError\<close> of the snapshot leaves \<^verbatim>\<open>execute_graph\<close> before any node has run,
  and the run record stays as it was. Either way the cap plays no part.
\<close>

theorem identity_self_loop_stops_after_one_node:
  assumes graph: "start_node g = a" "a \<noteq> []" "nodes g a = Some t" "edges g a = Some a"
    and tool: "tools t = Some f" "\<forall>s. f s = Inr s"
    and wf: "py_wf (PDict (r_state r))"
    and cond: "condition_satisfied g (r_state r) = Inr (sat, m)"
    and cap: "0 < cap"
  shows "(cp (r_state r) \<longrightarrow>
            execute_capped cap cp tools g r =
              \<lparr>final_run = \<lparr>r_state = r_state r,
                             r_log = r_log r @ [RunningNode a (Some t),
                                                if sat then LoopStop (loop_condition g) m
                                                else StateUnchanged],
                             r_status = Finished\<rparr>,
               executed = 1, uncaught = None\<rparr>)
         \<and> (\<not> cp (r_state r) \<longrightarrow>
            execute_capped cap cp tools g r =
              \<lparr>final_run = r, executed = 0, uncaught = Some RecursionError\<rparr>)
         \<and> execute_graph cp tools g r = execute_capped cap cp tools g r"
proof -
  have same: "py_eq (PDict (r_state r)) (PDict (r_state r))"
    using wf by (rule py_eq_refl)
  have body: "loop_body cp tools g (init_vars g r) =
      Return \<lparr>final_run = \<lparr>r_state = r_state r,
                             r_log = r_log r @ [RunningNode a (Some t),
                                                if sat then LoopStop (loop_condition g) m
                                                else StateUnchanged],
                             r_status = Finished\<rparr>,
              executed = 1, uncaught = None\<rparr>"
    using graph tool cond same
    by (simp add: loop_body_def run_tool_def init_vars_def Let_def del: py_eq.simps)
  have loop: "\<And>c. 0 < c \<Longrightarrow> run_loop cp c tools g (init_vars g r) =
      \<lparr>final_run = \<lparr>r_state = r_state r,
                     r_log = r_log r @ [RunningNode a (Some t),
                                        if sat then LoopStop (loop_condition g) m
                                        else StateUnchanged],
                     r_status = Finished\<rparr>,
       executed = 1, uncaught = None\<rparr>"
    using graph body by (intro run_loop_Return) (simp_all add: init_vars_def)
  show ?thesis
  proof (cases "cp (r_state r)")
    case True
    with loop [OF cap] loop [of MAX_STEPS] show ?thesis
      by (simp add: execute_graph_def execute_entered MAX_STEPS_def)
  next
    case False
    then show ?thesis
      by (simp add: execute_graph_def execute_not_entered)
  qed
qed

text \<open>The run of the identity self-loop on the scenario's initial state ends at step 1,
  not at step 2.\<close>

theorem identity_self_loop_counterexample:
  "execute_graph (depth_limited 400) identity_tools self_loop_graph pipeline_run =
     \<lparr>final_run = \<lparr>r_state = r_state pipeline_run,
                    r_log = [RunningNode ''a'' (Some ''identity''), StateUnchanged],
                    r_status = Finished\<rparr>,
      executed = 1, uncaught = None\<rparr>
   \<and> executed (execute_graph (depth_limited 400) identity_tools self_loop_graph pipeline_run)
       \<noteq> 2"
  by code_simp

text \<open>The same run under the cap 1, and the run on the state nested 500 levels deep.\<close>

theorem identity_self_loop_stops_after_one_node_witness:
  "py_wf (PDict (r_state pipeline_run))
   \<and> condition_satisfied self_loop_graph (r_state pipeline_run) = Inr (False, PNone)
   \<and> depth_limited 400 (r_state pipeline_run)
   \<and> execute_capped 1 (depth_limited 400) identity_tools self_loop_graph pipeline_run =
       \<lparr>final_run = \<lparr>r_state = r_state pipeline_run,
                      r_log = [RunningNode ''a'' (Some ''identity''), StateUnchanged],
                      r_status = Finished\<rparr>,
        executed = 1, uncaught = None\<rparr>
   \<and> execute_graph (depth_limited 400) identity_tools self_loop_graph pipeline_run =
       execute_capped 1 (depth_limited 400) identity_tools self_loop_graph pipeline_run
   \<and> py_wf (PDict (r_state deep_run))
   \<and> condition_satisfied self_loop_graph (r_state deep_run) = Inr (False, PNone)
   \<and> \<not> depth_limited 400 (r_state deep_run)
   \<and> execute_graph (depth_limited 400) identity_tools self_loop_graph deep_run =
       \<lparr>final_run = deep_run, executed = 0, uncaught = Some RecursionError\<rparr>"
proof -
  have graph: "start_node self_loop_graph = ''a''" "''a'' \<noteq> []"
    "nodes self_loop_graph ''a'' = Some ''identity''" "edges self_loop_graph ''a'' = Some ''a''"
    by (simp_all add: self_loop_graph_def)
  have tool: "identity_tools ''identity'' = Some identity_tool"
    "\<forall>s. identity_tool s = Inr s"
    by (simp_all add: identity_tool_def identity_tools_def)
  have wf: "py_wf (PDict (r_state pipeline_run))"
    by (simp add: pipeline_run_def)
  have cond: "condition_satisfied self_loop_graph (r_state pipeline_run) = Inr (False, PNone)"
    by (simp add: condition_satisfied_def self_loop_graph_def)
  have cap: "0 < (1::nat)" by simp
  have copy: "depth_limited 400 (r_state pipeline_run)"
    by code_simp
  note shallow = identity_self_loop_stops_after_one_node
         [where tools = identity_tools and f = identity_tool and cp = "depth_limited 400",
          OF graph tool wf cond cap]
  have wfd: "py_wf (PDict (r_state deep_run))"
    by code_simp
  have condd: "condition_satisfied self_loop_graph (r_state deep_run) = Inr (False, PNone)"
    by (simp add: condition_satisfied_def self_loop_graph_def)
  have deep: "\<not> depth_limited 400 (r_state deep_run)"
    by code_simp
  note nested = identity_self_loop_stops_after_one_node
         [where tools = identity_tools and f = identity_tool and cp = "depth_limited 400",
          OF graph tool wfd condd cap]
  from shallow copy have one: "execute_capped 1 (depth_limited 400) identity_tools
      self_loop_graph pipeline_run =
       \<lparr>final_run = \<lparr>r_state = r_state pipeline_run,
                      r_log = [RunningNode ''a'' (Some ''identity''), StateUnchanged],
                      r_status = Finished\<rparr>,
        executed = 1, uncaught = None\<rparr>"
    by (simp add: pipeline_run_def)
  from shallow have indep: "execute_graph (depth_limited 400) identity_tools self_loop_graph
      pipeline_run =
       execute_capped 1 (depth_limited 400) identity_tools self_loop_graph pipeline_run"
    by blast
  from nested deep have stop: "execute_graph (depth_limited 400) identity_tools self_loop_graph
      deep_run = \<lparr>final_run = deep_run, executed = 0, uncaught = Some RecursionError\<rparr>"
    by simp
  from wf cond copy one indep wfd condd deep stop show ?thesis by blast
qed

section \<open>The metric resolver\<close>

lemma resolve_parts_None: "resolve_parts PNone ps = Inr PNone"
  by (cases ps) simp_all

lemma resolve_present_null:
  "spec_path_lookup cur ps = Present PNone \<Longrightarrow> resolve_parts cur ps = Inr PNone"
  by (induction cur ps rule: spec_path_lookup.induct)
     (auto simp: dict_get_def split: pyval.splits option.splits)

lemma resolve_absent:
  "spec_path_lookup cur ps = Absent \<Longrightarrow> resolve_parts cur ps = Inr PNone"
  by (induction cur ps rule: spec_path_lookup.induct)
     (auto simp: dict_get_def resolve_parts_None split: pyval.splits option.splits)

lemma condition_on_None:
  assumes "loop_condition g = Some lc" "map_of lc ''metric'' = Some (PStr p)"
    "map_of lc ''op'' = Some op" "map_of lc ''value'' = Some target"
    "resolve_metric s p = Inr PNone"
  shows "condition_satisfied g s = Inr (False, PNone)"
proof -
  from assms(2) have "lc \<noteq> []" by auto
  with assms show ?thesis
    by (simp add: condition_satisfied_def dict_item_def bnd_def)
qed

text \<open>
  C4, at an input on which the code departs from it. In the state
  \<^verbatim>\<open>{"anomalies": {"count": 1}}\<close> the path \<^verbatim>\<open>anomalies.count.value\<close> goes through the
  number 1, which is not a mapping; \<^verbatim>\<open>_resolve_metric\<close> calls \<^verbatim>\<open>cur.get\<close> on it and
  raises \<^verbatim>\<open>AttributeError\<close> instead of returning \<^verbatim>\<open>None\<close>.
\<close>

theorem resolve_metric_raises_on_non_mapping:
  "spec_path_lookup (PDict deep_metric_state) (split_dot ''anomalies.count.value'') = NotMapping
   \<and> resolve_metric deep_metric_state ''anomalies.count.value'' = Inl AttributeError"
  by code_simp

text \<open>
  C5, as the code has it. When the full dotted path is present in the state with final
  value \<^verbatim>\<open>None\<close>, \<^verbatim>\<open>_resolve_metric\<close> returns \<^verbatim>\<open>None\<close>, and that is also what it
  returns for a state in which a key of the path is missing; for a loop condition on that
  path, \<^verbatim>\<open>_condition_satisfied\<close> answers \<^verbatim>\<open>(False, None)\<close> on both states. The two cases
  are not told apart.
\<close>

theorem present_null_resolves_like_absent:
  assumes null: "spec_path_lookup (PDict s) (split_dot p) = Present PNone"
    and missing: "spec_path_lookup (PDict s') (split_dot p) = Absent"
    and cond: "loop_condition g = Some lc" "map_of lc ''metric'' = Some (PStr p)"
      "map_of lc ''op'' = Some op" "map_of lc ''value'' = Some target"
  shows "resolve_metric s p = Inr PNone \<and> resolve_metric s' p = Inr PNone
       \<and> condition_satisfied g s = Inr (False, PNone)
       \<and> condition_satisfied g s' = Inr (False, PNone)"
proof -
  have r: "resolve_metric s p = Inr PNone"
    using null by (simp add: resolve_metric_def resolve_present_null)
  have r': "resolve_metric s' p = Inr PNone"
    using missing by (simp add: resolve_metric_def resolve_absent)
  from r r' condition_on_None [OF cond r] condition_on_None [OF cond r']
  show ?thesis by simp
qed

text \<open>A present \<^verbatim>\<open>None\<close> and a missing key give the same results.\<close>

theorem present_null_counterexample:
  "spec_path_lookup (PDict null_metric_state) (split_dot ''anomalies.count'') = Present PNone
   \<and> spec_path_lookup (PDict no_metric_state) (split_dot ''anomalies.count'') = Absent
   \<and> resolve_metric null_metric_state ''anomalies.count''
       = resolve_metric no_metric_state ''anomalies.count''
   \<and> condition_satisfied stop_graph null_metric_state
       = condition_satisfied stop_graph no_metric_state"
  by code_simp

theorem present_null_resolves_like_absent_witness:
  "spec_path_lookup (PDict null_metric_state) (split_dot ''anomalies.count'') = Present PNone
   \<and> spec_path_lookup (PDict no_metric_state) (split_dot ''anomalies.count'') = Absent
   \<and> resolve_metric null_metric_state ''anomalies.count'' = Inr PNone
   \<and> resolve_metric no_metric_state ''anomalies.count'' = Inr PNone
   \<and> condition_satisfied stop_graph null_metric_state = Inr (False, PNone)
   \<and> condition_satisfied stop_graph no_metric_state = Inr (False, PNone)"
proof -
  have null: "spec_path_lookup (PDict null_metric_state) (split_dot ''anomalies.count'')
      = Present PNone"
    by code_simp
  have missing: "spec_path_lookup (PDict no_metric_state) (split_dot ''anomalies.count'')
      = Absent"
    by code_simp
  have cond: "loop_condition stop_graph =
      Some [(''metric'', PStr ''anomalies.count''), (''op'', PStr ''<=''), (''value'', PInt 0)]"
    "map_of [(''metric'', PStr ''anomalies.count''), (''op'', PStr ''<=''), (''value'', PInt 0)]
       ''metric'' = Some (PStr ''anomalies.count'')"
    "map_of [(''metric'', PStr ''anomalies.count''), (''op'', PStr ''<=''), (''value'', PInt 0)]
       ''op'' = Some (PStr ''<='')"
    "map_of [(''metric'', PStr ''anomalies.count''), (''op'', PStr ''<=''), (''value'', PInt 0)]
       ''value'' = Some (PInt 0)"
    by (simp_all add: stop_graph_def)
  from present_null_resolves_like_absent [OF null missing cond] null missing
  show ?thesis by simp
qed

section \<open>\<^verbatim>\<open>apply_rules\<close>\<close>

lemma map_of_dict_set: "map_of (dict_set k v d) = (map_of d)(k \<mapsto> v)"
  by (induction d) auto

lemma dict_set_idem: "dict_set k v (dict_set k v d) = dict_set k v d"
  by (induction d) auto

lemma dict_get_default_set:
  "dict_get_default (dict_set k v d) k' dflt = (if k' = k then v else dict_get_default d k' dflt)"
  by (simp add: dict_get_default_def map_of_dict_set)

text \<open>
  C10. Whenever \<^verbatim>\<open>apply_rules\<close> returns, every key other than \<^verbatim>\<open>data\<close> has in the
  returned state the value it had in the input state, and is absent if it was absent.
  (When it raises it has not assigned to the state at all.)
\<close>

theorem apply_rules_frame:
  assumes "apply_rules_tool s = Inr s1" and "k \<noteq> ''data''"
  shows "map_of s1 k = map_of s k"
  using assms
  by (auto simp: apply_rules_tool_def bnd_def Let_def map_of_dict_set split: sum.splits)

theorem apply_rules_frame_witness:
  "apply_rules_tool refill_state =
     Inr [(''data'', PList [PInt 0]),
          (''rules'', PList [fill_null_rule, clip_rule (PInt 10) (PInt 100)])]
   \<and> ''rules'' \<noteq> ''data''
   \<and> map_of [(''data'', PList [PInt 0]),
              (''rules'', PList [fill_null_rule, clip_rule (PInt 10) (PInt 100)])] ''rules''
       = map_of refill_state ''rules''"
proof -
  have a: "apply_rules_tool refill_state =
     Inr [(''data'', PList [PInt 0]),
          (''rules'', PList [fill_null_rule, clip_rule (PInt 10) (PInt 100)])]"
    by code_simp
  have b: "''rules'' \<noteq> ''data''" by simp
  from apply_rules_frame [OF a b] a b show ?thesis by simp
qed

lemma py_cmp_num:
  "num_of a = Some i \<Longrightarrow>
   py_cmp c a b = (case num_of b of Some j \<Rightarrow> Inr (ord_cmp c i j) | None \<Rightarrow> Inl TypeError)"
  by (cases a) (auto split: option.splits)

text \<open>Clamping a number twice is clamping it once, and returns a number.\<close>

lemma clamp_idem:
  assumes "num_of v = Some i" and "bnd (py_min high v) (py_max low) = Inr y"
  shows "(\<exists>j. num_of y = Some j) \<and> bnd (py_min high y) (py_max low) = Inr y"
proof -
  from assms obtain h where h: "num_of high = Some h"
    by (auto simp: py_min_def py_max_def bnd_def py_cmp_num split: option.splits sum.splits)
  from assms h obtain l where l: "num_of low = Some l"
    by (auto simp: py_min_def py_max_def bnd_def py_cmp_num split: option.splits sum.splits if_splits)
  from assms h l show ?thesis
    by (auto simp: py_min_def py_max_def bnd_def py_cmp_num split: if_splits)
qed

lemma entry_idem_num:
  assumes "num_of v = Some i" and "apply_rules_entry rules v = Inr y"
  shows "apply_rules_entry rules y = Inr y"
proof -
  have v: "v \<noteq> PNone" using assms(1) by auto
  from assms(2) v obtain found where f: "find_rule rules ''clip'' = Inr found"
    by (auto simp: apply_rules_entry_def bnd_def split: sum.splits)
  show ?thesis
  proof (cases "\<exists>r. found = Some r \<and> r \<noteq> []")
    case False
    with assms(2) v f show ?thesis
      by (auto simp: apply_rules_entry_def bnd_def split: option.splits)
  next
    case True
    then obtain r where r: "found = Some r" "r \<noteq> []" by blast
    from assms(2) v f r obtain low high where
      lh: "dict_item r ''low'' = Inr low" "dict_item r ''high'' = Inr high"
      and c: "bnd (py_min high v) (py_max low) = Inr y"
      by (auto simp: apply_rules_entry_def bnd_def split: sum.splits)
    from clamp_idem [OF assms(1) c] have y: "y \<noteq> PNone"
      and c': "bnd (py_min high y) (py_max low) = Inr y"
      by auto
    from y f r lh c' show ?thesis
      by (simp add: apply_rules_entry_def bnd_def)
  qed
qed

lemma loop_idem:
  assumes "\<forall>x\<in>set xs. \<forall>y. apply_rules_entry rules x = Inr y \<longrightarrow> apply_rules_entry rules y = Inr y"
    and "apply_rules_loop rules xs = Inr ys"
  shows "apply_rules_loop rules ys = Inr ys"
  using assms
proof (induction xs arbitrary: ys)
  case Nil
  then show ?case by simp
next
  case (Cons x xs)
  from Cons.prems(2) obtain w ws where w: "apply_rules_entry rules x = Inr w"
    and ws: "apply_rules_loop rules xs = Inr ws" and ys: "ys = w # ws"
    by (auto simp: bnd_def split: sum.splits)
  have "x \<in> set (x # xs)" by simp
  with Cons.prems(1) w have hd: "apply_rules_entry rules w = Inr w" by blast
  have "\<forall>x'\<in>set xs. \<forall>y. apply_rules_entry rules x' = Inr y \<longrightarrow> apply_rules_entry rules y = Inr y"
  proof
    fix x'
    assume "x' \<in> set xs"
    then have "x' \<in> set (x # xs)" by simp
    with Cons.prems(1)
    show "\<forall>y. apply_rules_entry rules x' = Inr y \<longrightarrow> apply_rules_entry rules y = Inr y"
      by blast
  qed
  from Cons.IH [OF this ws] have tl: "apply_rules_loop rules ws = Inr ws" .
  show ?case
    unfolding ys by (simp add: bnd_def hd tl)
qed

text \<open>
  C6, as the code has it. Let \<^verbatim>\<open>data\<close> be a list of \<^verbatim>\<open>None\<close> and integers on which
  \<^verbatim>\<open>apply_rules\<close> returns, and let the value that replaces a \<^verbatim>\<open>None\<close> entry, when
  there is such an entry, be one that \<^verbatim>\<open>apply_rules\<close> would itself leave unchanged (it is
  \<^verbatim>\<open>None\<close>, or a number that the \<^verbatim>\<open>clip\<close> rule does not move). Then a second application
  returns the state of the first: the data are identical. Without that condition the
  second application clips the values the first one filled in.
\<close>

theorem apply_rules_idempotent_if_fill_fixed:
  assumes data: "dict_get_default s ''data'' (PList []) = PList xs"
    and nums: "\<forall>x\<in>set xs. x = PNone \<or> (\<exists>i. x = PInt i)"
    and first: "apply_rules_tool s = Inr s1"
    and fill: "\<forall>fv. PNone \<in> set xs
                 \<and> apply_rules_entry (dict_get_default s ''rules'' (PList [])) PNone = Inr fv
               \<longrightarrow> apply_rules_entry (dict_get_default s ''rules'' (PList [])) fv = Inr fv"
  shows "apply_rules_tool s1 = Inr s1"
proof -
  define rules where "rules = dict_get_default s ''rules'' (PList [])"
  from first data obtain ys where ys: "apply_rules_loop rules xs = Inr ys"
    and s1: "s1 = dict_set ''data'' (PList ys) s"
    by (auto simp: apply_rules_tool_def rules_def bnd_def Let_def split: sum.splits)
  have "\<forall>x\<in>set xs. \<forall>y. apply_rules_entry rules x = Inr y \<longrightarrow> apply_rules_entry rules y = Inr y"
  proof (intro ballI allI impI)
    fix x y
    assume x: "x \<in> set xs" and y: "apply_rules_entry rules x = Inr y"
    from nums x consider "x = PNone" | i where "x = PInt i" by blast
    then show "apply_rules_entry rules y = Inr y"
    proof cases
      case 1
      with fill x y show ?thesis by (auto simp: rules_def)
    next
      case 2
      then have "num_of x = Some i" by simp
      from entry_idem_num [OF this y] show ?thesis .
    qed
  qed
  from loop_idem [OF this ys] have again: "apply_rules_loop rules ys = Inr ys" .
  have d1: "dict_get_default s1 ''data'' (PList []) = PList ys"
    by (simp add: s1 dict_get_default_set)
  have r1: "dict_get_default s1 ''rules'' (PList []) = rules"
    by (simp add: s1 dict_get_default_set rules_def)
  show ?thesis
    using again by (simp add: apply_rules_tool_def d1 r1 bnd_def Let_def) (simp add: s1 dict_set_idem)
qed

text \<open>With bounds \<^verbatim>\<open>(10, 100)\<close> the first application fills \<^verbatim>\<open>None\<close> with 0 and the
  second clips that 0 to 10.\<close>

theorem apply_rules_not_idempotent_counterexample:
  "apply_rules_tool refill_state =
     Inr [(''data'', PList [PInt 0]),
          (''rules'', PList [fill_null_rule, clip_rule (PInt 10) (PInt 100)])]
   \<and> apply_rules_tool [(''data'', PList [PInt 0]),
                        (''rules'', PList [fill_null_rule, clip_rule (PInt 10) (PInt 100)])] =
     Inr [(''data'', PList [PInt 10]),
          (''rules'', PList [fill_null_rule, clip_rule (PInt 10) (PInt 100)])]
   \<and> \<not> py_eq (PList [PInt 10]) (PList [PInt 0])"
  by code_simp

theorem apply_rules_idempotent_if_fill_fixed_witness:
  "dict_get_default rules_state ''data'' (PList []) = PList [PInt 1, PNone, PInt 150]
   \<and> apply_rules_tool rules_state =
       Inr [(''data'', PList [PInt 1, PInt 0, PInt 100]),
            (''rules'', PList [fill_null_rule, clip_rule (PInt 0) (PInt 100)])]
   \<and> apply_rules_entry (dict_get_default rules_state ''rules'' (PList [])) PNone = Inr (PInt 0)
   \<and> apply_rules_entry (dict_get_default rules_state ''rules'' (PList [])) (PInt 0) = Inr (PInt 0)
   \<and> apply_rules_tool [(''data'', PList [PInt 1, PInt 0, PInt 100]),
                        (''rules'', PList [fill_null_rule, clip_rule (PInt 0) (PInt 100)])] =
       Inr [(''data'', PList [PInt 1, PInt 0, PInt 100]),
            (''rules'', PList [fill_null_rule, clip_rule (PInt 0) (PInt 100)])]"
proof -
  have data: "dict_get_default rules_state ''data'' (PList []) = PList [PInt 1, PNone, PInt 150]"
    by code_simp
  have nums: "\<forall>x\<in>set [PInt 1, PNone, PInt 150]. x = PNone \<or> (\<exists>i. x = PInt i)"
    by simp
  have first: "apply_rules_tool rules_state =
       Inr [(''data'', PList [PInt 1, PInt 0, PInt 100]),
            (''rules'', PList [fill_null_rule, clip_rule (PInt 0) (PInt 100)])]"
    by code_simp
  have f0: "apply_rules_entry (dict_get_default rules_state ''rules'' (PList [])) PNone
      = Inr (PInt 0)"
    by code_simp
  have f1: "apply_rules_entry (dict_get_default rules_state ''rules'' (PList [])) (PInt 0)
      = Inr (PInt 0)"
    by code_simp
  have fill: "\<forall>fv. PNone \<in> set [PInt 1, PNone, PInt 150]
                 \<and> apply_rules_entry (dict_get_default rules_state ''rules'' (PList [])) PNone
                     = Inr fv
               \<longrightarrow> apply_rules_entry (dict_get_default rules_state ''rules'' (PList [])) fv
                     = Inr fv"
    using f0 f1 by auto
  from apply_rules_idempotent_if_fill_fixed [OF data nums first fill] data first f0 f1
  show ?thesis by simp
qed

end
